theory Spec2Isabelle
  imports Main "HOL-Library.Word"
begin

unbundle bit_operations_syntax

section \<open>MZGF: a blocked, seekable gzip container (MZGFile.h, MZGFile.cpp)\<close>

text \<open>
  The development follows \<^verbatim>\<open>src/MZGFile.cpp\<close> function by function. A C array or a
  pointer into one is a byte list (the bytes from the pointer onwards), member
  variables \<^verbatim>\<open>m_x\<close> of the writer are the record fields \<open>w_x\<close> and those of the reader
  the fields \<open>r_x\<close>, and a leading underscore of a C name is dropped
  (\<^verbatim>\<open>_write_header\<close> is \<open>write_header\<close>).
\<close>

subsection \<open>Constants of MZGFile.h and MZGFile.cpp\<close>

type_synonym byte = "8 word"

definition MZGF_VERSION :: byte where "MZGF_VERSION = 1"
definition MZGF_BLOCK_SIZE :: nat where "MZGF_BLOCK_SIZE = 0xff00"
definition MZGF_MAX_BLOCK_SIZE :: nat where "MZGF_MAX_BLOCK_SIZE = 0x10000"

definition MZGF_FERROR :: int where "MZGF_FERROR = 1"
definition MZGF_NOT_GZIP :: int where "MZGF_NOT_GZIP = 3"
definition MZGF_NOT_MZGZIP :: int where "MZGF_NOT_MZGZIP = 4"
definition MZGF_ERR_HEADER :: int where "MZGF_ERR_HEADER = 5"
definition MZGF_BAD_FORMAT :: int where "MZGF_BAD_FORMAT = 6"
definition MZGF_BAD_VERSION :: int where "MZGF_BAD_VERSION = 7"

definition GZIP_MAGIC_ID1 :: byte where "GZIP_MAGIC_ID1 = 0x1f"
definition GZIP_MAGIC_ID2 :: byte where "GZIP_MAGIC_ID2 = 0x8b"
definition GZIP_CM_DEFLATED :: byte where "GZIP_CM_DEFLATED = 8"
definition GZIP_FEXTRA_FLG :: byte where "GZIP_FEXTRA_FLG = 0x04"
definition GZIP_FEXTRA_MAX :: nat where "GZIP_FEXTRA_MAX = 0xFFFF"

text \<open>\<^verbatim>\<open>GZIP_OS\<close> is chosen by the preprocessor; this is the \<^verbatim>\<open>__linux\<close> branch.\<close>

definition GZIP_OS :: byte where "GZIP_OS = 3"

text \<open>The return codes and flush modes of zlib.h that the code names.\<close>

definition Z_OK :: int where "Z_OK = 0"
definition Z_STREAM_END :: int where "Z_STREAM_END = 1"
definition Z_STREAM_ERROR :: int where "Z_STREAM_ERROR = - 2"
definition Z_BUF_ERROR :: int where "Z_BUF_ERROR = - 5"

datatype flush_mode = Z_FULL_FLUSH | Z_FINISH | Z_BLOCK

subsection \<open>The little-endian byte packer\<close>

text \<open>
  \<^verbatim>\<open>packIntN(buffer, value)\<close> stores the N/8 low-to-high bytes of \<open>value\<close> at
  \<^verbatim>\<open>buffer[0..]\<close>. The buffer argument is the list of bytes from the pointer onwards;
  the result is that list after the stores. C leaves a store or a load past the end
  of the array undefined: the decoders return \<open>None\<close> there, and every statement
  about the encoders carries the length of the buffer.
\<close>

definition packInt16 :: "byte list \<Rightarrow> 16 word \<Rightarrow> byte list" where
  "packInt16 buffer v = [ucast v, ucast (drop_bit 8 v)] @ drop 2 buffer"

definition packInt32 :: "byte list \<Rightarrow> 32 word \<Rightarrow> byte list" where
  "packInt32 buffer v =
     [ucast v, ucast (drop_bit 8 v), ucast (drop_bit 16 v), ucast (drop_bit 24 v)]
     @ drop 4 buffer"

definition packInt64 :: "byte list \<Rightarrow> 64 word \<Rightarrow> byte list" where
  "packInt64 buffer v =
     [ucast v, ucast (drop_bit 8 v), ucast (drop_bit 16 v), ucast (drop_bit 24 v),
      ucast (drop_bit 32 v), ucast (drop_bit 40 v), ucast (drop_bit 48 v),
      ucast (drop_bit 56 v)]
     @ drop 8 buffer"

text \<open>
  \<^verbatim>\<open>unpackInt16\<close> computes in \<^verbatim>\<open>int\<close> (the bytes are promoted) and returns an
  \<^verbatim>\<open>int\<close>.
\<close>

definition unpackInt16 :: "byte list \<Rightarrow> int option" where
  "unpackInt16 buffer =
     (if length buffer < 2 then None
      else Some (uint (buffer ! 0) OR push_bit 8 (uint (buffer ! 1))))"

text \<open>
  \<^verbatim>\<open>unpackInt32\<close> accumulates in a \<^verbatim>\<open>uint32_t\<close>; each operand is widened to
  \<^verbatim>\<open>uint64_t\<close>, shifted, or-ed in and the result narrowed back to 32 bits. The
  source reads five bytes, \<^verbatim>\<open>buffer[0]\<close> to \<^verbatim>\<open>buffer[4]\<close>; the fifth is shifted by
  32 and lost in the narrowing.
\<close>

definition or_in32 :: "32 word \<Rightarrow> byte \<Rightarrow> nat \<Rightarrow> 32 word" where
  "or_in32 r b n = ucast ((ucast r :: 64 word) OR push_bit n (ucast b :: 64 word))"

definition unpackInt32 :: "byte list \<Rightarrow> 32 word option" where
  "unpackInt32 buffer =
     (if length buffer < 5 then None
      else Some
        (let r = ucast (buffer ! 0);
             r = or_in32 r (buffer ! 1) 8;
             r = or_in32 r (buffer ! 2) 16;
             r = or_in32 r (buffer ! 3) 24;
             r = or_in32 r (buffer ! 4) 32
         in r))"

definition or_in64 :: "64 word \<Rightarrow> byte \<Rightarrow> nat \<Rightarrow> 64 word" where
  "or_in64 r b n = r OR push_bit n (ucast b :: 64 word)"

definition unpackInt64 :: "byte list \<Rightarrow> 64 word option" where
  "unpackInt64 buffer =
     (if length buffer < 8 then None
      else Some
        (let r = ucast (buffer ! 0);
             r = or_in64 r (buffer ! 1) 8;
             r = or_in64 r (buffer ! 2) 16;
             r = or_in64 r (buffer ! 3) 24;
             r = or_in64 r (buffer ! 4) 32;
             r = or_in64 r (buffer ! 5) 40;
             r = or_in64 r (buffer ! 6) 48;
             r = or_in64 r (buffer ! 7) 56
         in r))"


subsection \<open>Results of a call\<close>

text \<open>
  A call returns (\<open>Ret\<close>), ends the process through \<^verbatim>\<open>exit(n)\<close> (\<open>Exit n\<close>), fails an
  \<^verbatim>\<open>assert\<close> (\<open>Abort\<close>), or does something C leaves undefined, such as an access
  outside an array or through a null pointer (\<open>UB\<close>). A loop whose end depends on
  the zlib engine or on the bytes of a file is a partial function into \<open>option\<close>:
  \<open>None\<close> is a loop that never ends.
\<close>

datatype 'a outcome = Ret 'a | Exit int | Abort | UB

text \<open>\<^verbatim>\<open>if ( 0 != (ret = f()) ) return ret;\<close> followed by the rest \<open>k\<close>.\<close>

fun on_ok :: "(int \<times> 's) outcome \<Rightarrow> ('s \<Rightarrow> (int \<times> 's) outcome) \<Rightarrow> (int \<times> 's) outcome" where
  "on_ok (Ret (ret, s)) k = (if ret \<noteq> 0 then Ret (ret, s) else k s)"
| "on_ok (Exit n) k = Exit n"
| "on_ok Abort k = Abort"
| "on_ok UB k = UB"

text \<open>
  The error string \<^verbatim>\<open>m_error\<close>: empty, \<^verbatim>\<open>std::strerror(errno)\<close>, \<^verbatim>\<open>zError(ret)\<close> or
  a literal of the source.
\<close>

datatype errmsg = NoError | Strerror | ZError int | Message string

subsection \<open>Streams of stdio\<close>

text \<open>
  A \<^verbatim>\<open>FILE\<close>: the bytes of the file, the position, the end-of-file and error
  indicators, and the number of bytes the device still takes before a write comes up
  short. \<^verbatim>\<open>fread\<close> sets the end-of-file indicator when it gets fewer bytes than it
  asked for; \<^verbatim>\<open>fwrite\<close> appends (the destination is written front to back) and sets
  the error indicator on a short write; both indicators stay set.
\<close>

record FILE =
  f_bytes :: "byte list"
  f_pos :: nat
  f_eof :: bool
  f_error :: bool
  f_room :: nat

definition fread :: "nat \<Rightarrow> FILE \<Rightarrow> byte list \<times> FILE" where
  "fread n fp =
     (let got = take n (drop (f_pos fp) (f_bytes fp))
      in (got, fp\<lparr>f_pos := f_pos fp + length got, f_eof := f_eof fp \<or> length got < n\<rparr>))"

definition fwrite :: "byte list \<Rightarrow> FILE \<Rightarrow> nat \<times> FILE" where
  "fwrite data fp =
     (let put = take (f_room fp) data
      in (length put,
          fp\<lparr>f_bytes := f_bytes fp @ put, f_pos := f_pos fp + length put,
             f_room := f_room fp - length put,
             f_error := f_error fp \<or> length put < length data\<rparr>))"

definition ferror :: "FILE \<Rightarrow> bool" where "ferror fp = f_error fp"
definition feof :: "FILE \<Rightarrow> bool" where "feof fp = f_eof fp"
definition ftell :: "FILE \<Rightarrow> int" where "ftell fp = int (f_pos fp)"

text \<open>\<^verbatim>\<open>fseek(fp, offset, SEEK_SET)\<close> and \<^verbatim>\<open>fseek(fp, offset, SEEK_END)\<close>.\<close>

definition fseek_set :: "FILE \<Rightarrow> int \<Rightarrow> int \<times> FILE" where
  "fseek_set fp offset =
     (if offset < 0 then (- 1, fp) else (0, fp\<lparr>f_pos := nat offset, f_eof := False\<rparr>))"

definition fseek_end :: "FILE \<Rightarrow> int \<Rightarrow> int \<times> FILE" where
  "fseek_end fp offset = fseek_set fp (int (length (f_bytes fp)) + offset)"

subsection \<open>The zlib engine\<close>

text \<open>
  zlib is not part of the repository: the engine is a parameter \<open>Z\<close>.
  \<open>deflate Z st input avail_out flush\<close> and \<open>inflate Z st input avail_out flush\<close> are
  one call of \<^verbatim>\<open>::deflate\<close> or \<^verbatim>\<open>::inflate\<close> on the internal state \<open>st\<close> with the
  \<^verbatim>\<open>avail_in\<close> bytes at \<^verbatim>\<open>next_in\<close>: they give the return code, the number of input
  bytes used, the bytes stored at \<^verbatim>\<open>next_out\<close> and the new state.
  \<open>deflateInit2 Z\<close> and \<open>inflateInit2 Z\<close> give the return code and the fresh state
  (the source always passes the same arguments: raw deflate, window bits -15).
\<close>

record 'z zlib =
  compressBound :: "nat \<Rightarrow> nat"
  crc32 :: "32 word \<Rightarrow> byte list \<Rightarrow> 32 word"
  deflateInit2 :: "int \<times> 'z"
  deflate :: "'z \<Rightarrow> byte list \<Rightarrow> nat \<Rightarrow> flush_mode \<Rightarrow> int \<times> nat \<times> byte list \<times> 'z"
  inflateInit2 :: "int \<times> 'z"
  inflate :: "'z \<Rightarrow> byte list \<Rightarrow> nat \<Rightarrow> flush_mode \<Rightarrow> int \<times> nat \<times> byte list \<times> 'z"

text \<open>
  A \<^verbatim>\<open>z_stream\<close>: \<open>next_in\<close> is the list of the \<^verbatim>\<open>avail_in\<close> bytes not yet used. A call
  uses a prefix of them and stores at most \<^verbatim>\<open>avail_out\<close> bytes.
\<close>

record 'z z_stream =
  next_in :: "byte list"
  avail_out :: nat
  zstate :: 'z

definition avail_in :: "'z z_stream \<Rightarrow> nat" where
  "avail_in zs = length (next_in zs)"

definition zlib_call ::
  "('z \<Rightarrow> byte list \<Rightarrow> nat \<Rightarrow> flush_mode \<Rightarrow> int \<times> nat \<times> byte list \<times> 'z)
   \<Rightarrow> 'z z_stream \<Rightarrow> flush_mode \<Rightarrow> int \<times> byte list \<times> 'z z_stream" where
  "zlib_call f zs fl =
     (case f (zstate zs) (next_in zs) (avail_out zs) fl of
        (ret, used, out, st) \<Rightarrow>
          let out = take (avail_out zs) out
          in (ret, out,
              zs\<lparr>next_in := drop used (next_in zs),
                 avail_out := avail_out zs - length out, zstate := st\<rparr>))"

subsection \<open>Static data of MZGFile.cpp\<close>

definition gzheader :: "byte list" where
  "gzheader = [GZIP_MAGIC_ID1, GZIP_MAGIC_ID2, 8, GZIP_FEXTRA_FLG, 0, 0, 0, 0, 0, GZIP_OS, 0, 0]"

text \<open>
  The three extra-field buffers are global arrays, shared by the writer and the
  reader and kept from one call to the next.
\<close>

record globals =
  extra_mzgf :: "byte list"
  extra_eof :: "byte list"
  extra_bindex :: "byte list"

definition globals_init :: globals where
  "globals_init =
     \<lparr>extra_mzgf = [0x4D, 0x5A, 1, 0, MZGF_VERSION],
      extra_eof = [0x42, 0x4F, 16, 0] @ replicate 16 0,
      extra_bindex = [0x42, 0x49, 0, 0, 0, 0, 0, 0, 0, 0, 0, 0] @ replicate (GZIP_FEXTRA_MAX - 12) 0\<rparr>"

record bindex =
  zoffset :: "64 word"
  uoffset :: "64 word"

subsection \<open>MZGFileWriter\<close>

record 'z MZGFileWriter =
  w_version :: byte
  w_mtime :: int
  w_fp :: "FILE option"
  w_zs :: "'z z_stream"
  w_ublock :: "byte list"
  w_uoffset :: int
  w_ucrc32 :: "32 word"
  w_usize :: int
  w_zblock :: "byte list"
  w_zoffset :: int
  w_bindex :: "bindex list"
  w_bindex_offset :: int
  w_error :: errmsg

text \<open>
  The constructor, with \<open>now\<close> for \<^verbatim>\<open>time(NULL)\<close>. It sets two members; the vector
  and the string start empty; every other member keeps whatever the memory held,
  the argument \<open>mem\<close>.
\<close>

definition MZGFileWriter :: "int \<Rightarrow> 'z MZGFileWriter \<Rightarrow> 'z MZGFileWriter" where
  "MZGFileWriter now mem =
     mem\<lparr>w_mtime := now, w_bindex_offset := 0, w_bindex := [], w_error := NoError\<rparr>"

definition write_header ::
  "byte list \<Rightarrow> int \<Rightarrow> 'z MZGFileWriter \<Rightarrow> (int \<times> 'z MZGFileWriter) outcome" where
  "write_header extra extralen w =
     (if \<not> extralen < int GZIP_FEXTRA_MAX then Abort
      else case w_fp w of
        None \<Rightarrow> UB
      | Some fp \<Rightarrow>
          let zblock = gzheader @ drop (length gzheader) (w_zblock w);
              zblock = take 4 zblock @ packInt32 (drop 4 zblock) (word_of_int (w_mtime w));
              zblock = take 10 zblock @ packInt16 (drop 10 zblock) (word_of_int extralen);
              (n, fp) = fwrite (take (length gzheader) zblock) fp;
              w = w\<lparr>w_zblock := zblock, w_fp := Some fp\<rparr>;
              w = (if n \<noteq> length gzheader \<or> ferror fp then w\<lparr>w_error := Strerror\<rparr> else w);
              w = w\<lparr>w_zoffset := w_zoffset w + int (length gzheader)\<rparr>
          in if extralen \<noteq> 0 then
               (if extralen < 0 \<or> length extra < nat extralen then UB
                else
                  let (n, fp) = fwrite (take (nat extralen) extra) fp;
                      w = w\<lparr>w_fp := Some fp\<rparr>;
                      w = (if int n \<noteq> extralen \<or> ferror fp then w\<lparr>w_error := Strerror\<rparr> else w);
                      w = w\<lparr>w_zoffset := w_zoffset w + extralen\<rparr>
                  in Ret (0, w))
             else Ret (0, w))"

text \<open>
  The loop of \<^verbatim>\<open>_flush\<close>: deflate into \<^verbatim>\<open>m_zblock\<close>, write what was produced, again
  while the output buffer came back full. \<^verbatim>\<open>return ret || -1\<close> and
  \<^verbatim>\<open>return errno || -1\<close> are the logical or: they return 1.
\<close>

partial_function (option) flush_loop ::
  "'z zlib \<Rightarrow> flush_mode \<Rightarrow> 'z MZGFileWriter \<Rightarrow> (int \<times> 'z MZGFileWriter) outcome option" where
  "flush_loop Z fl w =
     (case zlib_call (deflate Z) ((w_zs w)\<lparr>avail_out := MZGF_BLOCK_SIZE\<rparr>) fl of
        (ret, out, zs) \<Rightarrow>
          let w = w\<lparr>w_zs := zs, w_zblock := out @ drop (length out) (w_zblock w)\<rparr>
          in if ret \<noteq> Z_OK \<and> ret \<noteq> Z_STREAM_END
             then Some (Ret (1, w\<lparr>w_error := ZError ret\<rparr>))
             else
               (case w_fp w of
                  None \<Rightarrow> Some UB
                | Some fp \<Rightarrow>
                    let have = MZGF_BLOCK_SIZE - avail_out zs;
                        (n, fp) = fwrite (take have (w_zblock w)) fp;
                        w = w\<lparr>w_fp := Some fp\<rparr>
                    in if n \<noteq> have \<or> ferror fp
                       then Some (Ret (1, w\<lparr>w_error := Strerror\<rparr>))
                       else
                         let w = w\<lparr>w_zoffset := w_zoffset w + int have\<rparr>
                         in if avail_out zs = 0 then flush_loop Z fl w
                            else Some (Ret (0, w))))"

definition flush ::
  "'z zlib \<Rightarrow> 'z MZGFileWriter \<Rightarrow> (int \<times> 'z MZGFileWriter) outcome option" where
  "flush Z w =
     (let n = avail_in (w_zs w);
          w = w\<lparr>w_usize := w_usize w + int n,
                w_ucrc32 := crc32 Z (w_ucrc32 w) (take n (w_ublock w))\<rparr>;
          fl = (if n < MZGF_BLOCK_SIZE then Z_FINISH else Z_FULL_FLUSH)
      in flush_loop Z fl w)"

definition write_empty ::
  "'z zlib \<Rightarrow> 'z MZGFileWriter \<Rightarrow> (int \<times> 'z MZGFileWriter) outcome" where
  "write_empty Z w =
     (case w_fp w of
        None \<Rightarrow> UB
      | Some fp \<Rightarrow>
          let empty = [0x03, 0x00];
              have = length empty;
              (n, fp) = fwrite empty fp;
              w = w\<lparr>w_fp := Some fp\<rparr>
          in if n \<noteq> have \<or> ferror fp then Ret (1, w\<lparr>w_error := Strerror\<rparr>)
             else Ret (0, w\<lparr>w_zoffset := w_zoffset w + int have, w_usize := 0,
                             w_ucrc32 := crc32 Z 0 []\<rparr>))"

definition write_trailer :: "'z MZGFileWriter \<Rightarrow> (int \<times> 'z MZGFileWriter) outcome" where
  "write_trailer w =
     (case w_fp w of
        None \<Rightarrow> UB
      | Some fp \<Rightarrow>
          let footer = packInt32 (replicate 8 0) (w_ucrc32 w);
              footer = take 4 footer @ packInt32 (drop 4 footer) (word_of_int (w_usize w));
              have = length footer;
              (n, fp) = fwrite footer fp;
              w = w\<lparr>w_fp := Some fp\<rparr>
          in if n \<noteq> have \<or> ferror fp then Ret (1, w\<lparr>w_error := Strerror\<rparr>)
             else Ret (0, w\<lparr>w_zoffset := w_zoffset w + 8\<rparr>))"


text \<open>
  \<^verbatim>\<open>_write_bindex\<close>. One turn of its loop, for the entry \<open>bi\<close>: pack the entry at
  \<open>offset\<close> and, when the buffer is full or the entry is the last
  (\<^verbatim>\<open>i+1 == m_bindex.size()\<close>), write an index member and start over at 12. The
  result is the status, the new \<open>offset\<close>, the globals and the writer.
\<close>

definition lift_g :: "globals \<Rightarrow> (int \<times> 's) outcome \<Rightarrow> (int \<times> globals \<times> 's) outcome" where
  "lift_g g x =
     (case x of Ret (ret, s) \<Rightarrow> Ret (ret, g, s) | Exit n \<Rightarrow> Exit n | Abort \<Rightarrow> Abort | UB \<Rightarrow> UB)"

definition write_member ::
  "'z zlib \<Rightarrow> byte list \<Rightarrow> int \<Rightarrow> 'z MZGFileWriter \<Rightarrow> (int \<times> 'z MZGFileWriter) outcome" where
  "write_member Z extra extralen w =
     on_ok (write_header extra extralen w) (\<lambda>w.
     on_ok (write_empty Z w) (\<lambda>w.
     on_ok (write_trailer w) (\<lambda>w. Ret (0, w))))"

definition write_bindex_step ::
  "'z zlib \<Rightarrow> bindex \<Rightarrow> bool \<Rightarrow> nat \<Rightarrow> globals \<Rightarrow> 'z MZGFileWriter
   \<Rightarrow> (int \<times> nat \<times> globals \<times> 'z MZGFileWriter) outcome" where
  "write_bindex_step Z bi is_last offset g w =
     (let eb = extra_bindex g;
          eb = take offset eb @ packInt64 (drop offset eb) (zoffset bi);
          offset = offset + 8;
          eb = take offset eb @ packInt64 (drop offset eb) (uoffset bi);
          offset = offset + 8
      in if offset + 16 \<ge> GZIP_FEXTRA_MAX \<or> is_last then
           let next = (if is_last then 0
                       else w_zoffset w + int (length gzheader) + int offset + 2 + 8);
               eb = take 2 eb @ packInt16 (drop 2 eb) (word_of_int (int offset - 4));
               eb = take 4 eb @ packInt64 (drop 4 eb) (word_of_int next);
               g = g\<lparr>extra_bindex := eb\<rparr>
           in (case write_member Z eb (int offset) w of
                 Ret (ret, w) \<Rightarrow> Ret (ret, 12, g, w)
               | Exit n \<Rightarrow> Exit n | Abort \<Rightarrow> Abort | UB \<Rightarrow> UB)
         else Ret (0, offset, g\<lparr>extra_bindex := eb\<rparr>, w))"

fun write_bindex_loop ::
  "'z zlib \<Rightarrow> bindex list \<Rightarrow> nat \<Rightarrow> globals \<Rightarrow> 'z MZGFileWriter
   \<Rightarrow> (int \<times> globals \<times> 'z MZGFileWriter) outcome" where
  "write_bindex_loop Z [] offset g w = Ret (0, g, w)"
| "write_bindex_loop Z (bi # rest) offset g w =
     (case write_bindex_step Z bi (rest = []) offset g w of
        Ret (ret, offset, g, w) \<Rightarrow>
          if ret \<noteq> 0 then Ret (ret, g, w) else write_bindex_loop Z rest offset g w
      | Exit n \<Rightarrow> Exit n | Abort \<Rightarrow> Abort | UB \<Rightarrow> UB)"

definition write_bindex ::
  "'z zlib \<Rightarrow> globals \<Rightarrow> 'z MZGFileWriter \<Rightarrow> (int \<times> globals \<times> 'z MZGFileWriter) outcome" where
  "write_bindex Z g w =
     write_bindex_loop Z (w_bindex w) 12 g (w\<lparr>w_bindex_offset := w_zoffset w\<rparr>)"

definition write_eof ::
  "'z zlib \<Rightarrow> globals \<Rightarrow> 'z MZGFileWriter \<Rightarrow> (int \<times> globals \<times> 'z MZGFileWriter) outcome" where
  "write_eof Z g w =
     (let ee = extra_eof g;
          ee = take 4 ee @ packInt64 (drop 4 ee) (word_of_int (w_uoffset w));
          ee = take 12 ee @ packInt64 (drop 12 ee) (word_of_int (w_bindex_offset w));
          g = g\<lparr>extra_eof := ee\<rparr>
      in lift_g g (write_member Z ee 20 w))"

text \<open>
  \<^verbatim>\<open>MZGFileWriter::deflate\<close>. One turn of its \<^verbatim>\<open>do ... while ( !feof(src) )\<close> loop:
  read a block, push an index entry, flush.
\<close>

definition deflate_step ::
  "'z zlib \<Rightarrow> FILE \<Rightarrow> 'z MZGFileWriter \<Rightarrow> (int \<times> 'z MZGFileWriter \<times> FILE) outcome option" where
  "deflate_step Z src w =
     (case fread MZGF_BLOCK_SIZE src of
        (buf, src) \<Rightarrow>
          let w = w\<lparr>w_ublock := buf @ drop (length buf) (w_ublock w),
                    w_zs := (w_zs w)\<lparr>next_in := buf\<rparr>\<rparr>
          in if ferror src then Some (Ret (1, w\<lparr>w_error := Strerror\<rparr>, src))
             else
               let bi = \<lparr>zoffset = word_of_int (w_zoffset w), uoffset = word_of_int (w_uoffset w)\<rparr>;
                   w = w\<lparr>w_bindex := w_bindex w @ [bi],
                         w_uoffset := w_uoffset w + int (avail_in (w_zs w))\<rparr>
               in map_option (\<lambda>x. case x of Ret (ret, w) \<Rightarrow> Ret (ret, w, src)
                                   | Exit n \<Rightarrow> Exit n | Abort \<Rightarrow> Abort | UB \<Rightarrow> UB)
                    (flush Z w))"

function deflate_loop ::
  "'z zlib \<Rightarrow> FILE \<Rightarrow> 'z MZGFileWriter \<Rightarrow> (int \<times> 'z MZGFileWriter \<times> FILE) outcome option" where
  "deflate_loop Z src w =
     (case deflate_step Z src w of
        Some (Ret (ret, w', src')) \<Rightarrow>
          if ret = 0 \<and> \<not> feof src' then deflate_loop Z src' w' else Some (Ret (ret, w', src'))
      | r \<Rightarrow> r)"
  by pat_completeness auto

lemma deflate_step_src:
  "deflate_step Z src w = Some (Ret (ret, w', src')) \<Longrightarrow> src' = snd (fread MZGF_BLOCK_SIZE src)"
  apply (auto simp: deflate_step_def Let_def split: prod.splits if_splits)
  subgoal for x1 x2 z by (cases z) auto
  done

lemma fread_not_eof_advances:
  "0 < n \<Longrightarrow> \<not> feof (snd (fread n src))
   \<Longrightarrow> length (f_bytes (snd (fread n src))) - f_pos (snd (fread n src))
       < length (f_bytes src) - f_pos src"
  by (auto simp: fread_def feof_def Let_def)

termination deflate_loop
  apply (relation "measure (\<lambda>(Z, src, w). length (f_bytes src) - f_pos src)")
   apply simp
  apply (auto dest!: deflate_step_src intro!: fread_not_eof_advances simp: MZGF_BLOCK_SIZE_def)
  done

text \<open>
  The destination after the call: the stream \<^verbatim>\<open>m_fp\<close> points to, or \<open>dst\<close> itself as
  long as \<^verbatim>\<open>m_fp\<close> was not set. The call gives the status, the globals, the writer
  and the two streams.
\<close>

definition stream_of :: "'z MZGFileWriter \<Rightarrow> FILE \<Rightarrow> FILE" where
  "stream_of w dst = (case w_fp w of Some fp \<Rightarrow> fp | None \<Rightarrow> dst)"

definition MZGFileWriter_deflate ::
  "'z zlib \<Rightarrow> globals \<Rightarrow> 'z MZGFileWriter \<Rightarrow> FILE \<Rightarrow> FILE
   \<Rightarrow> (int \<times> globals \<times> 'z MZGFileWriter \<times> FILE \<times> FILE) outcome option" where
  "MZGFileWriter_deflate Z g w src dst =
     (if \<not> compressBound Z MZGF_BLOCK_SIZE < MZGF_MAX_BLOCK_SIZE then Some Abort
      else case deflateInit2 Z of
        (ret, st) \<Rightarrow>
          let w = w\<lparr>w_zs := (w_zs w)\<lparr>zstate := st\<rparr>\<rparr>
          in if ret \<noteq> 0 then Some (Ret (ret, g, w\<lparr>w_error := ZError ret\<rparr>, src, dst))
             else
               let w = w\<lparr>w_fp := Some dst, w_uoffset := 0, w_usize := 0,
                         w_ucrc32 := crc32 Z 0 [], w_zoffset := 0\<rparr>
               in (case write_header (extra_mzgf g) 5 w of
                     Ret (ret, w) \<Rightarrow>
                       if ret \<noteq> 0 then Some (Ret (ret, g, w, src, stream_of w dst))
                       else
                         (case deflate_loop Z src w of
                            None \<Rightarrow> None
                          | Some (Ret (ret, w, src)) \<Rightarrow>
                              if ret \<noteq> 0 then Some (Ret (ret, g, w, src, stream_of w dst))
                              else
                                Some
                                  (case on_ok (lift_g g (write_trailer w)) (\<lambda>(g, w).
                                        on_ok (write_bindex Z g w) (\<lambda>(g, w).
                                        write_eof Z g w)) of
                                     Ret (ret, g, w) \<Rightarrow>
                                       if ret \<noteq> 0 then Ret (ret, g, w, src, stream_of w dst)
                                       else Ret (ret, g, w\<lparr>w_fp := None\<rparr>, src, stream_of w dst)
                                   | Exit n \<Rightarrow> Exit n | Abort \<Rightarrow> Abort | UB \<Rightarrow> UB)
                          | Some (Exit n) \<Rightarrow> Some (Exit n)
                          | Some Abort \<Rightarrow> Some Abort
                          | Some UB \<Rightarrow> Some UB)
                   | Exit n \<Rightarrow> Some (Exit n) | Abort \<Rightarrow> Some Abort | UB \<Rightarrow> Some UB))"

subsection \<open>MZGFileReader\<close>

text \<open>
  The bytes at \<^verbatim>\<open>m_zs.next_in\<close> are kept in the stream record, apart from
  \<^verbatim>\<open>m_zblock\<close>, the array they lie in.
\<close>

record 'z MZGFileReader =
  r_fp :: "FILE option"
  r_zs :: "'z z_stream"
  r_version :: byte
  r_mtime :: int
  r_isEOF :: bool
  r_zfilesize :: int
  r_ufilesize :: int
  r_zblock :: "byte list"
  r_zoffset :: int
  r_ublock :: "byte list"
  r_uoffset :: int
  r_blen :: int
  r_boffset :: int
  r_bindex :: "bindex list"
  r_bindex_offset :: int
  r_error :: errmsg

text \<open>The constructor; \<open>mem\<close> is what the memory held.\<close>

definition MZGFileReader :: "'z MZGFileReader \<Rightarrow> 'z MZGFileReader" where
  "MZGFileReader mem =
     mem\<lparr>r_version := - 1, r_mtime := 0, r_fp := None, r_ufilesize := - 1,
         r_zfilesize := - 1, r_isEOF := False, r_zoffset := 0, r_uoffset := 0,
         r_blen := 0, r_boffset := 0, r_bindex_offset := 0, r_bindex := [],
         r_error := NoError\<rparr>"

definition eof :: "'z MZGFileReader \<Rightarrow> bool" where "eof r = r_isEOF r"
definition version :: "'z MZGFileReader \<Rightarrow> byte" where "version r = r_version r"
definition mtime :: "'z MZGFileReader \<Rightarrow> int" where "mtime r = r_mtime r"
definition bindex :: "'z MZGFileReader \<Rightarrow> bindex list" where "bindex r = r_bindex r"
definition zfilesize :: "'z MZGFileReader \<Rightarrow> int" where "zfilesize r = r_zfilesize r"

text \<open>
  \<^verbatim>\<open>_read_header(extra, extralen)\<close> gives the status, the bytes of the buffer \<open>extra\<close>
  after the call and the reader.
\<close>

definition read_header ::
  "byte list \<Rightarrow> int \<Rightarrow> 'z MZGFileReader \<Rightarrow> (int \<times> byte list \<times> 'z MZGFileReader) outcome" where
  "read_header extra extralen r =
     (case r_fp r of
        None \<Rightarrow> UB
      | Some fp \<Rightarrow>
          let (hdr, fp) = fread (length gzheader) fp;
              count = length hdr;
              zblock = hdr @ drop count (r_zblock r);
              r = r\<lparr>r_fp := Some fp, r_zblock := zblock\<rparr>
          in if ferror fp then Ret (1, extra, r\<lparr>r_error := Strerror\<rparr>)
             else if count \<noteq> length gzheader
             then Ret (MZGF_ERR_HEADER, extra, r\<lparr>r_error := Message ''read incomplete gzip header''\<rparr>)
             else
               let r = r\<lparr>r_zoffset := r_zoffset r + int (length gzheader)\<rparr>
               in if zblock ! 0 \<noteq> GZIP_MAGIC_ID1 \<or> zblock ! 1 \<noteq> GZIP_MAGIC_ID2
                     \<or> zblock ! 2 \<noteq> GZIP_CM_DEFLATED
                  then Ret (MZGF_NOT_GZIP, extra, r\<lparr>r_error := Message ''not in gzip format''\<rparr>)
                  else
                    (case (unpackInt32 (drop 4 zblock), unpackInt16 (drop 10 zblock)) of
                       (Some mt, Some xl) \<Rightarrow>
                         let r = r\<lparr>r_mtime := uint mt\<rparr>;
                             flag = zblock ! 3;
                             xlen = (word_of_int xl :: 16 word)
                         in if flag AND GZIP_FEXTRA_FLG = 0 \<and> xlen = 0
                            then Ret (MZGF_BAD_FORMAT, extra,
                                   r\<lparr>r_error := Message ''missing extra field(s) in gzip header''\<rparr>)
                            else if uint xlen > extralen
                            then Ret (MZGF_BAD_FORMAT, extra,
                                   r\<lparr>r_error := Message ''length extra fields exceeded expectation''\<rparr>)
                            else
                              let (got, fp) = fread (unat xlen) fp;
                                  count = length got;
                                  extra = got @ drop count extra;
                                  r = r\<lparr>r_fp := Some fp\<rparr>
                              in if ferror fp then Ret (1, extra, r\<lparr>r_error := Strerror\<rparr>)
                                 else if count \<noteq> unat xlen
                                 then Ret (MZGF_ERR_HEADER, extra,
                                        r\<lparr>r_error := Message ''read incomplete gzip extras''\<rparr>)
                                 else Ret (0, extra, r\<lparr>r_zoffset := r_zoffset r + uint xlen\<rparr>)
                     | _ \<Rightarrow> UB))"

text \<open>The \<^verbatim>\<open>for ( int i = 12; i < count; )\<close> loop of \<^verbatim>\<open>_read_bindex\<close>: the entries it pushes.\<close>

function read_entries :: "byte list \<Rightarrow> int \<Rightarrow> int \<Rightarrow> bindex list option" where
  "read_entries extra i count =
     (if i < count then
        (if i < 0 then None
         else case (unpackInt64 (drop (nat i) extra), unpackInt64 (drop (nat i + 8) extra)) of
           (Some z, Some u) \<Rightarrow>
             map_option (\<lambda>es. \<lparr>zoffset = z, uoffset = u\<rparr> # es) (read_entries extra (i + 16) count)
         | _ \<Rightarrow> None)
      else Some [])"
  by pat_completeness auto
termination
  by (relation "measure (\<lambda>(extra, i, count). nat (count - i))") auto

text \<open>
  The \<^verbatim>\<open>while ( offset )\<close> loop of \<^verbatim>\<open>_read_bindex\<close>: it follows the offsets the file
  holds, so it need not end.
\<close>

definition read_bindex_step ::
  "int \<Rightarrow> globals \<Rightarrow> 'z MZGFileReader \<Rightarrow> (int \<times> int \<times> globals \<times> 'z MZGFileReader) outcome" where
  "read_bindex_step offset g r =
     (case r_fp r of
        None \<Rightarrow> UB
      | Some fp \<Rightarrow>
          let (rc, fp) = fseek_set fp offset;
              r = r\<lparr>r_fp := Some fp\<rparr>
          in if rc \<noteq> 0 then Ret (1, offset, g, r\<lparr>r_error := Strerror\<rparr>)
             else
               (case read_header (extra_bindex g) (int GZIP_FEXTRA_MAX) r of
                  Ret (ret, extra, r) \<Rightarrow>
                    let g = g\<lparr>extra_bindex := extra\<rparr>
                    in if ret \<noteq> 0 then Ret (ret, offset, g, r)
                       else if extra ! 0 = 0x42 \<or> extra ! 1 = 0x49 then
                         (case (unpackInt16 (drop 2 extra), unpackInt64 (drop 4 extra)) of
                            (Some count, Some next) \<Rightarrow>
                              (case read_entries extra 12 count of
                                 None \<Rightarrow> UB
                               | Some es \<Rightarrow>
                                   Ret (0, sint next, g, r\<lparr>r_bindex := r_bindex r @ es\<rparr>))
                          | _ \<Rightarrow> UB)
                       else Ret (MZGF_BAD_FORMAT, offset, g,
                              r\<lparr>r_error := Message ''missing MZGF block index''\<rparr>)
                | Exit n \<Rightarrow> Exit n | Abort \<Rightarrow> Abort | UB \<Rightarrow> UB))"

partial_function (option) read_bindex_loop ::
  "int \<Rightarrow> globals \<Rightarrow> 'z MZGFileReader \<Rightarrow> (int \<times> globals \<times> 'z MZGFileReader) outcome option" where
  "read_bindex_loop offset g r =
     (if offset \<noteq> 0 then
        (case read_bindex_step offset g r of
           Ret (ret, offset, g, r) \<Rightarrow>
             if ret \<noteq> 0 then Some (Ret (ret, g, r)) else read_bindex_loop offset g r
         | Exit n \<Rightarrow> Some (Exit n) | Abort \<Rightarrow> Some Abort | UB \<Rightarrow> Some UB)
      else Some (Ret (0, g, r)))"

text \<open>Restoring the position saved on entry, at the end of \<^verbatim>\<open>_read_bindex\<close> and \<^verbatim>\<open>_read_eof\<close>.\<close>

definition restore_position ::
  "int \<Rightarrow> globals \<Rightarrow> 'z MZGFileReader \<Rightarrow> (int \<times> globals \<times> 'z MZGFileReader) outcome" where
  "restore_position pos g r =
     (case r_fp r of
        None \<Rightarrow> UB
      | Some fp \<Rightarrow>
          let (rc, fp) = fseek_set fp pos;
              r = r\<lparr>r_fp := Some fp\<rparr>
          in if rc \<noteq> 0 then Ret (1, g, r\<lparr>r_error := Strerror\<rparr>) else Ret (0, g, r))"

definition read_bindex ::
  "globals \<Rightarrow> 'z MZGFileReader \<Rightarrow> (int \<times> globals \<times> 'z MZGFileReader) outcome option" where
  "read_bindex g r =
     (case r_fp r of
        None \<Rightarrow> Some UB
      | Some fp \<Rightarrow>
          let pos = ftell fp
          in map_option (\<lambda>x. on_ok x (\<lambda>(g, r). restore_position pos g r))
               (read_bindex_loop (r_bindex_offset r) g r))"

definition read_eof ::
  "globals \<Rightarrow> 'z MZGFileReader \<Rightarrow> (int \<times> globals \<times> 'z MZGFileReader) outcome" where
  "read_eof g r =
     (case r_fp r of
        None \<Rightarrow> UB
      | Some fp \<Rightarrow>
          let pos = ftell fp;
              bsize = int (length gzheader) + 20 + 2 + 4 + 4;
              (rc, fp) = fseek_end fp (- bsize);
              r = r\<lparr>r_fp := Some fp\<rparr>
          in if rc \<noteq> 0 then Ret (1, g, r\<lparr>r_error := Strerror\<rparr>)
             else
               (case read_header (extra_eof g) 20 r of
                  Ret (ret, extra, r) \<Rightarrow>
                    let g = g\<lparr>extra_eof := extra\<rparr>
                    in if ret \<noteq> 0 then Ret (ret, g, r)
                       else if extra ! 0 = 0x42 \<or> extra ! 1 = 0x4F then
                         (case (unpackInt64 (drop 4 extra), unpackInt64 (drop 12 extra)) of
                            (Some us, Some bo) \<Rightarrow>
                              restore_position pos g
                                (r\<lparr>r_ufilesize := sint us, r_bindex_offset := sint bo\<rparr>)
                          | _ \<Rightarrow> UB)
                       else Ret (MZGF_BAD_FORMAT, g,
                              r\<lparr>r_error := Message ''missing MZGF block index offset''\<rparr>)
                | Exit n \<Rightarrow> Exit n | Abort \<Rightarrow> Abort | UB \<Rightarrow> UB))"

text \<open>
  \<^verbatim>\<open>open(path)\<close>; \<open>fs\<close> maps the paths of the files that exist to their bytes, so that
  \<^verbatim>\<open>fopen\<close> and \<^verbatim>\<open>stat\<close> succeed on them.
\<close>

definition fopen_rb :: "byte list \<Rightarrow> FILE" where
  "fopen_rb bs = \<lparr>f_bytes = bs, f_pos = 0, f_eof = False, f_error = False, f_room = 0\<rparr>"

definition MZGFileReader_open ::
  "'z zlib \<Rightarrow> (string \<Rightarrow> byte list option) \<Rightarrow> string \<Rightarrow> globals \<Rightarrow> 'z MZGFileReader
   \<Rightarrow> (int \<times> globals \<times> 'z MZGFileReader) outcome option" where
  "MZGFileReader_open Z fs path g r =
     (if \<not> compressBound Z MZGF_BLOCK_SIZE < MZGF_MAX_BLOCK_SIZE then Some Abort
      else case fs path of
        None \<Rightarrow> Some (Ret (1, g, r\<lparr>r_fp := None, r_error := Strerror\<rparr>))
      | Some bs \<Rightarrow>
          (case inflateInit2 Z of
             (ret, st) \<Rightarrow>
               let r = r\<lparr>r_fp := Some (fopen_rb bs), r_isEOF := False, r_zoffset := 0,
                         r_uoffset := 0,
                         r_zs := \<lparr>next_in = [], avail_out = MZGF_BLOCK_SIZE, zstate = st\<rparr>\<rparr>
               in if ret \<noteq> Z_OK then Some (Ret (1, g, r\<lparr>r_error := ZError ret\<rparr>))
                  else
                    (case read_header (extra_mzgf g) 5 r of
                       Ret (ret, extra, r) \<Rightarrow>
                         let g = g\<lparr>extra_mzgf := extra\<rparr>
                         in if ret \<noteq> 0 then Some (Ret (ret, g, r))
                            else if extra ! 0 \<noteq> 0x4D \<or> extra ! 1 \<noteq> 0x5A
                            then Some (Ret (MZGF_NOT_MZGZIP, g,
                                         r\<lparr>r_error := Message ''not in MZGF format''\<rparr>))
                            else
                              let r = r\<lparr>r_version := extra ! 4\<rparr>
                              in if MZGF_VERSION \<noteq> r_version r
                                 then Some (Ret (MZGF_BAD_VERSION, g,
                                              r\<lparr>r_error := Message ''incompatible MZGF version''\<rparr>))
                                 else
                                   (case read_eof g r of
                                      Ret (ret, g, r) \<Rightarrow>
                                        if ret \<noteq> 0 then Some (Ret (ret, g, r))
                                        else
                                          map_option
                                            (\<lambda>x. on_ok x (\<lambda>(g, r).
                                               Ret (0, g, r\<lparr>r_zfilesize := int (length bs)\<rparr>)))
                                            (read_bindex g r)
                                    | Exit n \<Rightarrow> Some (Exit n)
                                    | Abort \<Rightarrow> Some Abort
                                    | UB \<Rightarrow> Some UB)
                     | Exit n \<Rightarrow> Some (Exit n) | Abort \<Rightarrow> Some Abort | UB \<Rightarrow> Some UB)))"

definition close :: "'z MZGFileReader \<Rightarrow> 'z MZGFileReader" where
  "close r = r\<lparr>r_fp := None\<rparr>"












definition vtell :: "'z MZGFileReader \<Rightarrow> int" where
  "vtell r = r_zoffset r"


text \<open>
  The reset of the inflate state that \<^verbatim>\<open>vseek\<close> and \<^verbatim>\<open>useek\<close> share:
  \<^verbatim>\<open>inflateInit2\<close> on an empty input. It gives the return code of zlib.
\<close>

definition reinit :: "'z zlib \<Rightarrow> 'z MZGFileReader \<Rightarrow> int \<times> 'z MZGFileReader" where
  "reinit Z r =
     (case inflateInit2 Z of
        (ret, st) \<Rightarrow>
          (ret, r\<lparr>r_zs := \<lparr>next_in = [], avail_out = MZGF_BLOCK_SIZE, zstate = st\<rparr>\<rparr>))"

text \<open>
  \<^verbatim>\<open>vseek(voffset)\<close>; \<^verbatim>\<open>m_boffset\<close> is an \<^verbatim>\<open>int\<close> and takes the low 16 bits,
  \<^verbatim>\<open>voffset >> 16\<close> is the arithmetic shift of a signed 64-bit value.
\<close>

definition vseek :: "'z zlib \<Rightarrow> 'z MZGFileReader \<Rightarrow> int \<Rightarrow> (int \<times> 'z MZGFileReader) outcome" where
  "vseek Z r voffset =
     (let r = r\<lparr>r_boffset := voffset AND 0xFFFF\<rparr>;
          zoffset = drop_bit 16 voffset
      in if zoffset = r_zoffset r then Ret (0, r)
         else
           (case r_fp r of
              None \<Rightarrow> UB
            | Some fp \<Rightarrow>
                let (rc, fp) = fseek_set fp zoffset;
                    r = r\<lparr>r_fp := Some fp\<rparr>
                in if rc \<noteq> 0 then Ret (1, r\<lparr>r_error := Strerror\<rparr>)
                   else
                     let r = r\<lparr>r_zoffset := zoffset, r_blen := 0, r_isEOF := False\<rparr>;
                         (ret, r) = reinit Z r
                     in if ret \<noteq> Z_OK then Ret (1, r\<lparr>r_error := ZError ret\<rparr>)
                        else Ret (0, r)))"

text \<open>
  The binary search of \<^verbatim>\<open>useek\<close>. \<^verbatim>\<open>lower\<close>, \<^verbatim>\<open>upper\<close> and \<^verbatim>\<open>mid\<close> are \<^verbatim>\<open>int\<close>, of
  32 bits: a sum \<^verbatim>\<open>lower+upper\<close> outside the range of \<^verbatim>\<open>int\<close> is a signed overflow,
  which C leaves undefined, and \<^verbatim>\<open>/2\<close> truncates toward zero (\<^verbatim>\<open>mid + 1\<close> stays in
  range, since \<^verbatim>\<open>mid < upper\<close>). The offset sought is an \<^verbatim>\<open>off_t\<close> and the entries
  hold \<^verbatim>\<open>uint64_t\<close>: the comparison is made in \<^verbatim>\<open>uint64_t\<close>. An index outside the
  vector is undefined.
\<close>

definition INT_MAX :: int where "INT_MAX = 2147483647"
definition INT_MIN :: int where "INT_MIN = - 2147483648"

definition c_div2 :: "int \<Rightarrow> int" where
  "c_div2 s = (if s < 0 then - ((- s) div 2) else s div 2)"

function bsearch :: "bindex list \<Rightarrow> 64 word \<Rightarrow> int \<Rightarrow> int \<Rightarrow> int outcome" where
  "bsearch ix u lower upper =
     (if lower < upper then
        if lower + upper < INT_MIN \<or> INT_MAX < lower + upper then UB
        else
          let mid = c_div2 (lower + upper)
          in if \<not> mid < upper then Abort
             else if mid < 0 \<or> int (length ix) \<le> mid then UB
             else if u < uoffset (ix ! nat mid) then bsearch ix u lower mid
             else bsearch ix u (mid + 1) upper
      else Ret lower)"
  by pat_completeness auto
termination
  by (relation "measure (\<lambda>(ix, u, lower, upper). nat (upper - lower))")
    (auto simp: c_div2_def split: if_splits)

text \<open>
  \<^verbatim>\<open>int upper = m_bindex.size()-1\<close>: the subtraction is made in \<^verbatim>\<open>size_t\<close>, of 64
  bits, and the result converted to \<^verbatim>\<open>int\<close>, which keeps its low 32 bits.
\<close>

definition size_minus_one :: "bindex list \<Rightarrow> int" where
  "size_minus_one ix = sint (ucast ((word_of_nat (length ix) :: 64 word) - 1) :: 32 word)"

text \<open>
  \<^verbatim>\<open>useek(uoffset)\<close>, with \<open>uoff\<close> for its argument. \<open>useek_lower\<close> is the search
  and the line \<^verbatim>\<open>if ( uoffset < m_bindex[lower].uoffset ) lower--;\<close> after it.
  \<^verbatim>\<open>m_boffset\<close> is an \<^verbatim>\<open>int\<close>: it takes the low 32 bits of the 64-bit difference,
  read as a signed value; \<^verbatim>\<open>m_zoffset\<close> is an \<^verbatim>\<open>off_t\<close> and takes the entry's
  \<^verbatim>\<open>uint64_t\<close> read as a signed value.
\<close>

definition useek_lower :: "bindex list \<Rightarrow> 64 word \<Rightarrow> int outcome" where
  "useek_lower ix u =
     (case bsearch ix u 0 (size_minus_one ix) of
        Ret lower \<Rightarrow>
          if lower < 0 \<or> int (length ix) \<le> lower then UB
          else Ret (if u < uoffset (ix ! nat lower) then lower - 1 else lower)
      | Exit n \<Rightarrow> Exit n | Abort \<Rightarrow> Abort | UB \<Rightarrow> UB)"

definition useek_at ::
  "'z zlib \<Rightarrow> 'z MZGFileReader \<Rightarrow> int \<Rightarrow> (int \<times> 'z MZGFileReader) outcome" where
  "useek_at Z r uoff =
     (let u = (word_of_int uoff :: 64 word);
          ix = r_bindex r
      in case useek_lower ix u of
           Ret lower \<Rightarrow>
             if lower < 0 \<or> int (length ix) \<le> lower then UB
             else
               let e = ix ! nat lower;
                   r = r\<lparr>r_boffset := sint (ucast (u - uoffset e) :: 32 word)\<rparr>
               in if (word_of_int (r_zoffset r) :: 64 word) = zoffset e then Ret (0, r)
                  else
                    let r = r\<lparr>r_zoffset := sint (zoffset e), r_uoffset := uoff,
                              r_blen := 0, r_isEOF := False\<rparr>;
                        (ret, r) = reinit Z r
                    in if ret \<noteq> Z_OK then Ret (1, r\<lparr>r_error := ZError ret\<rparr>)
                       else
                         (case r_fp r of
                            None \<Rightarrow> UB
                          | Some fp \<Rightarrow>
                              let (rc, fp) = fseek_set fp (sint (zoffset e));
                                  r = r\<lparr>r_fp := Some fp\<rparr>
                              in if rc \<noteq> 0 then Ret (1, r\<lparr>r_error := Strerror\<rparr>)
                                 else Ret (0, r))
         | Exit n \<Rightarrow> Exit n | Abort \<Rightarrow> Abort | UB \<Rightarrow> UB)"

definition useek ::
  "'z zlib \<Rightarrow> globals \<Rightarrow> 'z MZGFileReader \<Rightarrow> int
   \<Rightarrow> (int \<times> globals \<times> 'z MZGFileReader) outcome option" where
  "useek Z g r uoff =
     (if r_bindex r = [] then
        (case read_bindex g r of
           None \<Rightarrow> None
         | Some (Ret (ret, g, r)) \<Rightarrow>
             if ret \<noteq> 0 then Some (Ret (ret, g, r)) else Some (lift_g g (useek_at Z r uoff))
         | Some (Exit n) \<Rightarrow> Some (Exit n)
         | Some Abort \<Rightarrow> Some Abort
         | Some UB \<Rightarrow> Some UB)
      else Some (lift_g g (useek_at Z r uoff)))"

subsection \<open>A stand-in for zlib\<close>

text \<open>
  Modelled from the spec: zlib (the DEFLATE engine, \<^verbatim>\<open>crc32\<close>, \<^verbatim>\<open>compressBound\<close>) is an
  external collaborator of which only the interface appears. The theorems below hold
  for every engine \<open>Z\<close>; this one serves where a concrete engine is needed to run the
  code. It writes each input it is given as one stored DEFLATE block (a byte with the
  final-block bit, the length and its complement in 16 bits each, the bytes), which
  every inflater reads, and its \<^verbatim>\<open>inflate\<close> reads stored blocks, one block per call
  as \<^verbatim>\<open>Z_BLOCK\<close> asks, and reports the end of the stream on the call after the one
  that gave the last block.
\<close>

datatype stored_state =
  Deflating (pending: "byte list") (finished: bool)
| Inflating (header: "byte list") (remaining: nat) (final: bool) (ended: bool)

definition stored_block :: "bool \<Rightarrow> byte list \<Rightarrow> byte list" where
  "stored_block fin bs =
     (if fin then 1 else 0)
     # packInt16 [0, 0] (word_of_nat (length bs))
     @ packInt16 [0, 0] (NOT (word_of_nat (length bs)))
     @ bs"

definition stored_deflate ::
  "stored_state \<Rightarrow> byte list \<Rightarrow> nat \<Rightarrow> flush_mode \<Rightarrow> int \<times> nat \<times> byte list \<times> stored_state" where
  "stored_deflate st input room fl =
     (case st of
        Inflating h n f e \<Rightarrow> (Z_STREAM_ERROR, 0, [], st)
      | Deflating pend fin \<Rightarrow>
          if pend \<noteq> [] then
            let rest = drop room pend
            in (if fin \<and> rest = [] then Z_STREAM_END else Z_OK, 0, take room pend,
                Deflating rest fin)
          else if fin then
            (if fl = Z_FINISH \<and> input = [] then Z_STREAM_END else Z_BUF_ERROR, 0, [], st)
          else if input = [] \<and> fl \<noteq> Z_FINISH then (Z_BUF_ERROR, 0, [], st)
          else
            let chunk = take 0xFFFF input;
                fin = (fl = Z_FINISH \<and> length input \<le> 0xFFFF);
                blk = stored_block fin chunk;
                rest = drop room blk
            in (if fin \<and> rest = [] then Z_STREAM_END else Z_OK, length chunk, take room blk,
                Deflating rest fin))"

definition stored_inflate ::
  "stored_state \<Rightarrow> byte list \<Rightarrow> nat \<Rightarrow> flush_mode \<Rightarrow> int \<times> nat \<times> byte list \<times> stored_state" where
  "stored_inflate st input room fl =
     (case st of
        Deflating p f \<Rightarrow> (Z_STREAM_ERROR, 0, [], st)
      | Inflating h n f e \<Rightarrow>
          if e then (Z_STREAM_END, 0, [], st)
          else if n = 0 \<and> h = [] \<and> f then (Z_STREAM_END, 0, [], Inflating [] 0 True True)
          else
            let k = (if n = 0 then min (5 - length h) (length input) else 0);
                h = (if n = 0 then h @ take k input else h);
                input = drop k input
            in if n = 0 \<and> length h < 5
               then (if k = 0 then Z_BUF_ERROR else Z_OK, k, [], Inflating h 0 f False)
               else if n = 0 \<and> (h ! 0 AND 6 \<noteq> 0
                       \<or> unpackInt16 (drop 1 h) \<noteq> Some (uint (NOT (word_of_int (the (unpackInt16 (drop 3 h))) :: 16 word))))
               then (- 3, k, [], Inflating h 0 f False)
               else
                 let f = (if n = 0 then h ! 0 AND 1 = 1 else f);
                     n = (if n = 0 then nat (the (unpackInt16 (drop 1 h))) else n);
                     m = min n (min (length input) room)
                 in (if k = 0 \<and> m = 0 \<and> 0 < n then Z_BUF_ERROR else Z_OK, k + m, take m input,
                     Inflating [] (n - m) f False))"

text \<open>CRC-32 of zlib, bit by bit, and \<^verbatim>\<open>compressBound\<close> as zlib computes it.\<close>

definition crc32_bit :: "32 word \<Rightarrow> 32 word" where
  "crc32_bit c = (if bit c 0 then drop_bit 1 c XOR 0xEDB88320 else drop_bit 1 c)"

definition crc32_byte :: "byte \<Rightarrow> 32 word \<Rightarrow> 32 word" where
  "crc32_byte b c = (crc32_bit ^^ 8) (c XOR ucast b)"

definition stored_crc32 :: "32 word \<Rightarrow> byte list \<Rightarrow> 32 word" where
  "stored_crc32 c bs = NOT (fold crc32_byte bs (NOT c))"

definition stored_zlib :: "stored_state zlib" where
  "stored_zlib =
     \<lparr>compressBound = (\<lambda>n. n + drop_bit 12 n + drop_bit 14 n + drop_bit 25 n + 13),
      crc32 = stored_crc32,
      deflateInit2 = (Z_OK, Deflating [] False),
      deflate = stored_deflate,
      inflateInit2 = (Z_OK, Inflating [] 0 False False),
      inflate = stored_inflate\<rparr>"

text \<open>What a constructor finds in memory, for the examples: zeroes.\<close>

definition writer_mem :: "stored_state MZGFileWriter" where
  "writer_mem =
     \<lparr>w_version = 0, w_mtime = 0, w_fp = None,
      w_zs = \<lparr>next_in = [], avail_out = 0, zstate = Deflating [] False\<rparr>,
      w_ublock = [], w_uoffset = 0, w_ucrc32 = 0, w_usize = 0, w_zblock = [],
      w_zoffset = 0, w_bindex = [], w_bindex_offset = 0, w_error = NoError\<rparr>"

definition reader_mem :: "stored_state MZGFileReader" where
  "reader_mem =
     \<lparr>r_fp = None,
      r_zs = \<lparr>next_in = [], avail_out = 0, zstate = Inflating [] 0 False False\<rparr>,
      r_version = 0, r_mtime = 0, r_isEOF = False, r_zfilesize = 0, r_ufilesize = 0,
      r_zblock = [], r_zoffset = 0, r_ublock = [], r_uoffset = 0, r_blen = 0,
      r_boffset = 0, r_bindex = [], r_bindex_offset = 0, r_error = NoError\<rparr>"

text \<open>An input stream holding \<open>bs\<close> and an empty output stream with room for \<open>n\<close> bytes.\<close>

definition input_stream :: "byte list \<Rightarrow> FILE" where
  "input_stream bs = fopen_rb bs"

definition output_stream :: "nat \<Rightarrow> FILE" where
  "output_stream n = \<lparr>f_bytes = [], f_pos = 0, f_eof = False, f_error = False, f_room = n\<rparr>"

text \<open>
  The recursion equations of the two partial loops serve evaluation; those of the
  other loops are unfolded by hand.
\<close>

declare flush_loop.simps [code]
declare read_bindex_loop.simps [code]
declare deflate_loop.simps [simp del]
declare read_entries.simps [simp del]
declare bsearch.simps [simp del]

subsection \<open>Notions used in the statements\<close>




text \<open>
  The MZGF file of the empty input, as the stand-in engine writes it with mtime 0: the
  opening member (header, \<open>MZ\<close> subfield, one empty final stored block, trailer), one
  index member with the entry \<open>(17, 0)\<close>, and the EOF member, whose \<open>BO\<close> subfield
  holds the size 0 and the offset 30 of the index member.
\<close>

definition empty_mgz :: "byte list" where
  "empty_mgz =
     [0x1f, 0x8b, 8, 4, 0, 0, 0, 0, 0, 3, 5, 0, 0x4D, 0x5A, 1, 0, 1,
      1, 0, 0, 0xFF, 0xFF,
      0, 0, 0, 0, 0, 0, 0, 0,
      0x1f, 0x8b, 8, 4, 0, 0, 0, 0, 0, 3, 28, 0, 0x42, 0x49, 24, 0,
      0, 0, 0, 0, 0, 0, 0, 0, 17, 0, 0, 0, 0, 0, 0, 0, 0, 0, 0, 0, 0, 0, 0, 0,
      3, 0, 0, 0, 0, 0, 0, 0, 0, 0,
      0x1f, 0x8b, 8, 4, 0, 0, 0, 0, 0, 3, 20, 0, 0x42, 0x4F, 16, 0,
      0, 0, 0, 0, 0, 0, 0, 0, 30, 0, 0, 0, 0, 0, 0, 0,
      3, 0, 0, 0, 0, 0, 0, 0, 0, 0]"

text \<open>A file system holding one file, and the state after a call that returned 0.\<close>

definition one_file :: "string \<Rightarrow> byte list \<Rightarrow> string \<Rightarrow> byte list option" where
  "one_file name bs = (\<lambda>p. if p = name then Some bs else None)"

definition state_of :: "(int \<times> 's) outcome option \<Rightarrow> 's option" where
  "state_of x = (case x of Some (Ret (ret, s)) \<Rightarrow> if ret = 0 then Some s else None | _ \<Rightarrow> None)"

definition opened_empty :: "stored_state MZGFileReader" where
  "opened_empty =
     \<lparr>r_fp = Some \<lparr>f_bytes = empty_mgz, f_pos = 17, f_eof = False, f_error = False, f_room = 0\<rparr>,
      r_zs = \<lparr>next_in = [], avail_out = 65280, zstate = Inflating [] 0 False False\<rparr>,
      r_version = 1, r_mtime = 0, r_isEOF = False, r_zfilesize = 122, r_ufilesize = 0,
      r_zblock = [31, 139, 8, 4, 0, 0, 0, 0, 0, 3, 28, 0], r_zoffset = 89, r_ublock = [],
      r_uoffset = 0, r_blen = 0, r_boffset = 0, r_bindex = [\<lparr>zoffset = 17, uoffset = 0\<rparr>],
      r_bindex_offset = 30, r_error = NoError\<rparr>"

text \<open>The status a call returned.\<close>

definition status_of :: "(int \<times> 's) outcome option \<Rightarrow> int option" where
  "status_of x = (case x of Some (Ret (ret, s)) \<Rightarrow> Some ret | _ \<Rightarrow> None)"

subsection \<open>The layout of the file\<close>

text \<open>
  The bytes the packer stores, the twelve bytes of a member header with a given MTIME
  and XLEN, and a member without content: header, extra field, the two bytes
  \<^verbatim>\<open>03 00\<close> and a trailer with the CRC of no data and the size 0.
\<close>

definition le16 :: "16 word \<Rightarrow> byte list" where
  "le16 v = packInt16 [] v"

definition le32 :: "32 word \<Rightarrow> byte list" where
  "le32 v = packInt32 [] v"

definition le64 :: "64 word \<Rightarrow> byte list" where
  "le64 v = packInt64 [] v"

definition gz_header :: "int \<Rightarrow> int \<Rightarrow> byte list" where
  "gz_header mt xlen =
     [GZIP_MAGIC_ID1, GZIP_MAGIC_ID2, 8, GZIP_FEXTRA_FLG] @ le32 (word_of_int mt)
     @ [0, GZIP_OS] @ le16 (word_of_int xlen)"

definition zero_member :: "'z zlib \<Rightarrow> int \<Rightarrow> byte list \<Rightarrow> byte list" where
  "zero_member Z mt extra =
     gz_header mt (int (length extra)) @ extra @ [0x03, 0x00] @ le32 (crc32 Z 0 []) @ le32 0"

text \<open>
  The extra field of an index member that carries the entries \<open>es\<close> and points to
  \<open>next\<close>, and the one of the EOF member.
\<close>

definition bi_entry :: "bindex \<Rightarrow> byte list" where
  "bi_entry e = le64 (zoffset e) @ le64 (uoffset e)"

definition bi_extra :: "byte list \<Rightarrow> int \<Rightarrow> bindex list \<Rightarrow> byte list" where
  "bi_extra ident next es =
     ident @ le16 (word_of_int (8 + 16 * int (length es))) @ le64 (word_of_int next)
     @ concat (map bi_entry es)"

definition bo_extra :: "byte list \<Rightarrow> int \<Rightarrow> int \<Rightarrow> byte list" where
  "bo_extra ident usize bindex_offset =
     ident @ le64 (word_of_int usize) @ le64 (word_of_int bindex_offset)"

text \<open>The global buffers as a process finds them: their sizes and identifiers.\<close>

definition globals_fresh :: "globals \<Rightarrow> bool" where
  "globals_fresh g =
     (extra_mzgf g = [0x4D, 0x5A, 1, 0, MZGF_VERSION]
      \<and> length (extra_eof g) = 20 \<and> take 4 (extra_eof g) = [0x42, 0x4F, 16, 0]
      \<and> length (extra_bindex g) = GZIP_FEXTRA_MAX \<and> take 2 (extra_bindex g) = [0x42, 0x49])"

text \<open>
  What a stretch of the writer's code did to the destination: from the state \<open>w\<close> to the
  state \<open>w'\<close> it appended the bytes \<open>out\<close>, all of them, with no error on the stream,
  and advanced \<^verbatim>\<open>m_zoffset\<close> by their number. And the members of the writer such a
  stretch leaves alone.
\<close>

definition wrote :: "'z MZGFileWriter \<Rightarrow> 'z MZGFileWriter \<Rightarrow> byte list \<Rightarrow> bool" where
  "wrote w w' out =
     (case (w_fp w, w_fp w') of
        (Some fp, Some fp') \<Rightarrow>
          \<not> f_error fp \<and> \<not> f_error fp' \<and> f_bytes fp' = f_bytes fp @ out
          \<and> length out \<le> f_room fp \<and> f_room fp' = f_room fp - length out
          \<and> w_zoffset w' = w_zoffset w + int (length out)
      | _ \<Rightarrow> False)"

definition kept :: "'z MZGFileWriter \<Rightarrow> 'z MZGFileWriter \<Rightarrow> bool" where
  "kept w w' =
     (w_mtime w' = w_mtime w \<and> w_bindex w' = w_bindex w
      \<and> w_bindex_offset w' = w_bindex_offset w \<and> w_uoffset w' = w_uoffset w)"


text \<open>
  The file the writer makes of an input \<open>B\<close> of less than 65275 bytes on the stand-in
  engine: the opening member with the one stored block and the trailer, the index
  member with the entry \<open>(17, 0)\<close>, the EOF member.
\<close>

definition small_mgz :: "int \<Rightarrow> byte list \<Rightarrow> byte list" where
  "small_mgz now B =
     gz_header now 5 @ [0x4D, 0x5A, 1, 0, 1] @ stored_block True B
     @ le32 (stored_crc32 0 B) @ le32 (word_of_nat (length B))
     @ zero_member stored_zlib now (bi_extra [0x42, 0x49] 0 [\<lparr>zoffset = 17, uoffset = 0\<rparr>])
     @ zero_member stored_zlib now
         (bo_extra [0x42, 0x4F, 16, 0] (int (length B)) (30 + int (length B)))"

(*DEFS_END*)

section \<open>Properties\<close>

subsection \<open>The byte packer\<close>

lemma ucast_byte_64: "(ucast (ucast v :: byte) :: 64 word) = take_bit 8 v"
  by (rule bit_word_eqI) (auto simp: bit_simps)

lemma take_bit_or_byte_64:
  "take_bit n v OR push_bit n (take_bit 8 (drop_bit n v)) = take_bit (n + 8) (v :: 64 word)"
  by (rule bit_word_eqI) (auto simp: bit_simps)

lemma unpackInt64_packInt64:
  "8 \<le> length b \<Longrightarrow> unpackInt64 (packInt64 b v) = Some v"
  unfolding unpackInt64_def packInt64_def or_in64_def Let_def
  by (simp add: ucast_byte_64 take_bit_or_byte_64 take_bit_word_eq_self)

lemma ucast_byte_32: "(ucast (ucast v :: byte) :: 32 word) = take_bit 8 v"
  by (rule bit_word_eqI) (auto simp: bit_simps)

lemma take_bit_or_byte_32:
  "ucast ((ucast (take_bit n v) :: 64 word)
          OR push_bit n (ucast (ucast (drop_bit n v) :: byte)))
   = take_bit (n + 8) (v :: 32 word)"
  by (rule bit_word_eqI) (auto simp: bit_simps)

lemma fifth_byte_lost:
  "ucast ((ucast (v :: 32 word) :: 64 word) OR push_bit 32 (ucast (b :: byte))) = v"
  by (rule bit_word_eqI) (auto simp: bit_simps)

lemma unpackInt32_packInt32:
  "5 \<le> length b \<Longrightarrow> unpackInt32 (packInt32 b v) = Some v"
  unfolding unpackInt32_def packInt32_def or_in32_def Let_def
  by (simp add: ucast_byte_32 take_bit_or_byte_32 fifth_byte_lost take_bit_word_eq_self)

lemma unpackInt16_packInt16:
  "2 \<le> length b \<Longrightarrow> unpackInt16 (packInt16 b v) = Some (uint v)"
  unfolding unpackInt16_def packInt16_def
  by (simp, intro bit_eqI) (auto simp: bit_simps dest: bit_imp_le_length)

text \<open>
  C10. Decoding what the packer encoded gives the value back, for 16, 32 and 64 bits,
  when the buffer holds the bytes that the encoder stores and the decoder loads: two
  for \<open>unpackInt16\<close>, eight for \<open>unpackInt64\<close> and five for \<open>unpackInt32\<close>, which
  also loads \<^verbatim>\<open>buffer[4]\<close>. \<open>unpackInt16\<close> returns the value as a non-negative
  \<^verbatim>\<open>int\<close>.
\<close>

theorem pack_unpack_roundtrip:
  "(2 \<le> length b16 \<longrightarrow> unpackInt16 (packInt16 b16 v16) = Some (uint v16))
   \<and> (5 \<le> length b32 \<longrightarrow> unpackInt32 (packInt32 b32 v32) = Some v32)
   \<and> (8 \<le> length b64 \<longrightarrow> unpackInt64 (packInt64 b64 v64) = Some v64)"
  by (simp add: unpackInt16_packInt16 unpackInt32_packInt32 unpackInt64_packInt64)

theorem pack_unpack_roundtrip_witness:
  "unpackInt16 (packInt16 [0, 0] 0xBEEF) = Some 0xBEEF
   \<and> unpackInt32 (packInt32 [0, 0, 0, 0, 0x7F] 0xDEADBEEF) = Some 0xDEADBEEF
   \<and> unpackInt64 (packInt64 [0, 0, 0, 0, 0, 0, 0, 0] 0x0123456789ABCDEF)
       = Some 0x0123456789ABCDEF"
  using pack_unpack_roundtrip [of "[0, 0]" "0xBEEF" "[0, 0, 0, 0, 0x7F]" "0xDEADBEEF"
      "[0, 0, 0, 0, 0, 0, 0, 0]" "0x0123456789ABCDEF"]
  by simp

subsection \<open>Seeking by uncompressed offset\<close>












subsection \<open>Running the code on concrete files\<close>

lemmas consts_defs = MZGF_VERSION_def MZGF_BLOCK_SIZE_def MZGF_MAX_BLOCK_SIZE_def
  MZGF_FERROR_def MZGF_NOT_GZIP_def MZGF_NOT_MZGZIP_def MZGF_ERR_HEADER_def MZGF_BAD_FORMAT_def
  MZGF_BAD_VERSION_def GZIP_MAGIC_ID1_def GZIP_MAGIC_ID2_def GZIP_CM_DEFLATED_def GZIP_FEXTRA_FLG_def
  GZIP_FEXTRA_MAX_def GZIP_OS_def Z_OK_def Z_STREAM_END_def Z_STREAM_ERROR_def Z_BUF_ERROR_def
  gzheader_def

lemmas unpack_defs = unpackInt32_def unpackInt16_def unpackInt64_def or_in32_def or_in64_def

lemma open_concrete:
  assumes "bs = empty_mgz \<or> bs = empty_mgz[93 := 0x58]"
  shows "\<exists>g. MZGFileReader_open stored_zlib (one_file ''a.mgz'' bs) ''a.mgz'' globals_init
          (MZGFileReader reader_mem)
        = Some (Ret (0, g, opened_empty\<lparr>r_fp := Some ((fopen_rb bs)\<lparr>f_pos := 17\<rparr>)\<rparr>))"
  using assms
  apply (elim disjE)
   apply (simp_all add: MZGFileReader_open_def stored_zlib_def consts_defs one_file_def)
   apply (simp_all add: read_header_def fopen_rb_def empty_mgz_def consts_defs fread_def ferror_def Let_def
      MZGFileReader_def reader_mem_def unpack_defs globals_init_def)
   apply (simp_all add: read_eof_def fseek_end_def fseek_set_def ftell_def read_header_def fread_def ferror_def
     unpack_defs Let_def consts_defs restore_position_def)
   apply (simp_all add: read_bindex_def ftell_def)
   apply (subst read_bindex_loop.simps)
   apply (simp add: read_bindex_step_def fseek_set_def read_header_def fread_def ferror_def
     unpack_defs Let_def consts_defs)
   apply (subst read_entries.simps, simp add: unpack_defs)
   apply (subst read_entries.simps, simp add: unpack_defs)
   apply (subst read_bindex_loop.simps)
   apply (simp add: restore_position_def fseek_set_def opened_empty_def empty_mgz_def)
  apply (subst read_bindex_loop.simps)
  apply (simp add: read_bindex_step_def fseek_set_def read_header_def fread_def ferror_def
     unpack_defs Let_def consts_defs)
  apply (subst read_entries.simps, simp add: unpack_defs)
  apply (subst read_entries.simps, simp add: unpack_defs)
  apply (subst read_bindex_loop.simps)
  apply (simp add: restore_position_def fseek_set_def opened_empty_def empty_mgz_def)
  done

subsection \<open>The EOF member and the virtual offset\<close>

text \<open>
  C4. The claim: with the identifier of the EOF member's subfield changed from \<open>BO\<close> to
  \<open>BX\<close>, \<open>open\<close> returns \<^verbatim>\<open>MZGF_BAD_FORMAT\<close>. The code: \<^verbatim>\<open>_read_eof\<close> tests
  \<^verbatim>\<open>extra_eof[0] == 'B' || extra_eof[1] == 'O'\<close>, so on the file of the empty input
  with byte 93 changed from \<open>O\<close> to \<open>X\<close>, \<open>open\<close> returns 0.
\<close>

theorem open_accepts_BX:
  "status_of (MZGFileReader_open stored_zlib (one_file ''a.mgz'' (empty_mgz[93 := 0x58])) ''a.mgz''
       globals_init (MZGFileReader reader_mem)) = Some 0
   \<and> Some 0 \<noteq> Some MZGF_BAD_FORMAT
   \<and> take 2 (drop 92 empty_mgz) = [0x42, 0x4F]
   \<and> take 2 (drop 92 (empty_mgz[93 := 0x58])) = [0x42, 0x58]"
proof -
  obtain g where "MZGFileReader_open stored_zlib (one_file ''a.mgz'' (empty_mgz[93 := 0x58])) ''a.mgz''
      globals_init (MZGFileReader reader_mem)
    = Some (Ret (0, g, opened_empty\<lparr>r_fp := Some ((fopen_rb (empty_mgz[93 := 0x58]))\<lparr>f_pos := 17\<rparr>)\<rparr>))"
    using open_concrete [of "empty_mgz[93 := 0x58]"] by auto
  then show ?thesis
    by (simp add: status_of_def MZGF_BAD_FORMAT_def empty_mgz_def)
qed

theorem open_accepts_BX_witness:
  "status_of (MZGFileReader_open stored_zlib (one_file ''a.mgz'' (empty_mgz[93 := 0x58])) ''a.mgz''
       globals_init (MZGFileReader reader_mem)) \<noteq> Some MZGF_BAD_FORMAT"
  using open_accepts_BX by simp

text \<open>
  C2. The claim: after \<open>useek(u)\<close> for an index entry \<open>(z, u)\<close>, \<open>vtell()\<close> is
  \<open>z << 16\<close>. The code: \<open>vtell\<close> returns \<^verbatim>\<open>m_zoffset\<close> as it is. On the file of the empty
  input \<open>vtell\<close> is 89 after \<open>open\<close> (the bytes of the three headers read), and after
  \<open>useek(0)\<close>, which picks the entry \<open>(17, 0)\<close>, it is 17 and not \<open>17 << 16\<close>.
\<close>

theorem vtell_after_useek:
  "(case state_of (MZGFileReader_open stored_zlib (one_file ''a.mgz'' empty_mgz) ''a.mgz''
                     globals_init (MZGFileReader reader_mem)) of
      None \<Rightarrow> False
    | Some (g, r) \<Rightarrow>
        bindex r = [\<lparr>zoffset = 17, uoffset = 0\<rparr>]
        \<and> vtell r = 89
        \<and> (case state_of (useek stored_zlib g r 0) of
              None \<Rightarrow> False
            | Some (g', r') \<Rightarrow> vtell r' = 17 \<and> r_boffset r' = 0 \<and> vtell r' \<noteq> push_bit 16 17))"
proof -
  obtain g where g: "MZGFileReader_open stored_zlib (one_file ''a.mgz'' empty_mgz) ''a.mgz''
      globals_init (MZGFileReader reader_mem)
    = Some (Ret (0, g, opened_empty\<lparr>r_fp := Some ((fopen_rb empty_mgz)\<lparr>f_pos := 17\<rparr>)\<rparr>))"
    using open_concrete [of empty_mgz] by auto
  show ?thesis
    apply (simp add: g state_of_def bindex_def vtell_def opened_empty_def)
    apply (simp add: useek_def useek_at_def useek_lower_def lift_g_def size_minus_one_def)
    apply (subst bsearch.simps)
    apply (simp add: reinit_def stored_zlib_def Z_OK_def fseek_set_def fopen_rb_def Let_def vtell_def)
    done
qed

theorem vtell_after_useek_witness:
  "state_of (MZGFileReader_open stored_zlib (one_file ''a.mgz'' empty_mgz) ''a.mgz''
               globals_init (MZGFileReader reader_mem)) \<noteq> None"
  using vtell_after_useek by (auto split: option.splits)

subsection \<open>What the writer puts on the destination\<close>

lemma fwrite_twice:
  "snd (fwrite b (snd (fwrite a fp))) = snd (fwrite (a @ b) fp)"
  by (cases "f_room fp \<ge> length a") (auto simp: fwrite_def Let_def min_def)

lemma fwrite_nil: "snd (fwrite [] fp) = fp"
  by (simp add: fwrite_def)

lemma fwrite_error_iff:
  "f_error (snd (fwrite d fp)) \<longleftrightarrow> f_error fp \<or> f_room fp < length d"
  by (auto simp: fwrite_def Let_def)

lemma fwrite_bytes:
  "length d \<le> f_room fp \<Longrightarrow> f_bytes (snd (fwrite d fp)) = f_bytes fp @ d"
  by (simp add: fwrite_def Let_def)

lemma fwrite_room:
  "f_room (snd (fwrite d fp)) = f_room fp - length d"
  by (simp add: fwrite_def Let_def)

lemma fwrite_check:
  "fwrite d fp = (n, fp') \<Longrightarrow> (n \<noteq> length d \<or> ferror fp') \<longleftrightarrow> f_error (snd (fwrite d fp))"
  by (auto simp: fwrite_def Let_def ferror_def)

lemma fwrite_split: "fwrite d fp = (fst (fwrite d fp), snd (fwrite d fp))"
  by simp

lemma packInt16_le: "packInt16 b v = le16 v @ drop 2 b"
  by (simp add: packInt16_def le16_def)

lemma packInt32_le: "packInt32 b v = le32 v @ drop 4 b"
  by (simp add: packInt32_def le32_def)

lemma packInt64_le: "packInt64 b v = le64 v @ drop 8 b"
  by (simp add: packInt64_def le64_def)

lemma length_le [simp]: "length (le16 a) = 2" "length (le32 b) = 4" "length (le64 c) = 8"
  by (simp_all add: le16_def le32_def le64_def packInt16_def packInt32_def packInt64_def)

lemma length_gz_header [simp]: "length (gz_header mt n) = 12"
  by (simp add: gz_header_def)

lemma length_gzheader: "length gzheader = 12"
  by (simp add: gzheader_def)

lemma zb:
  "take 10 (take 4 (gzheader @ drop (length gzheader) zb0)
             @ packInt32 (drop 4 (gzheader @ drop (length gzheader) zb0)) (word_of_int mt))
           @ packInt16 (drop 10 (take 4 (gzheader @ drop (length gzheader) zb0)
             @ packInt32 (drop 4 (gzheader @ drop (length gzheader) zb0)) (word_of_int mt)))
               (word_of_int n)
         = gz_header mt n @ drop 12 zb0"
  by (simp only: length_gzheader) (simp add: gzheader_def gz_header_def packInt32_le packInt16_le)

lemma write_header_eq:
  assumes "w_fp w = Some fp" "0 \<le> n" "n < 65535" "nat n \<le> length extra"
  shows "write_header extra n w
    = (let fp' = snd (fwrite (gz_header (w_mtime w) n @ take (nat n) extra) fp)
       in Ret (0, w\<lparr>w_zblock := gz_header (w_mtime w) n @ drop 12 (w_zblock w),
                     w_fp := Some fp',
                     w_error := (if f_error fp' then Strerror else w_error w),
                     w_zoffset := w_zoffset w + 12 + n\<rparr>))"
proof -
  let ?h = "gz_header (w_mtime w) n"
  obtain n1 fp1 where f1: "fwrite ?h fp = (n1, fp1)" by force
  have fp1: "fp1 = snd (fwrite ?h fp)" using f1 by simp
  have c1: "(n1 \<noteq> length gzheader \<or> ferror fp1) = f_error fp1"
    using fwrite_check [OF f1] fp1 by (simp add: length_gzheader)
  obtain n2 fp2 where f2: "fwrite (take (nat n) extra) fp1 = (n2, fp2)" by force
  have fp2: "snd (fwrite (?h @ take (nat n) extra) fp) = fp2"
    using f2 fp1 fwrite_twice [of "take (nat n) extra" ?h fp] by simp
  have c2: "(int n2 \<noteq> n \<or> ferror fp2) = f_error fp2"
    using fwrite_check [OF f2] assms(2,4) by (auto simp: f2)
  have mono: "f_error fp1 \<Longrightarrow> f_error fp2"
    using f2 by (auto simp: fwrite_def Let_def)
  have lim: "n < int GZIP_FEXTRA_MAX" using assms(3) by (simp add: GZIP_FEXTRA_MAX_def)
  have ok: "\<not> (n < 0 \<or> length extra < nat n)" using assms(2,4) by simp
  have n0: "fp2 = fp1" if "n = 0" using f2 that by (simp add: fwrite_def)
  have d1: "n1 = 12 \<and> \<not> ferror fp1 \<longleftrightarrow> \<not> f_error fp1"
    using c1 by (auto simp: length_gzheader)
  have d4: "(n1 = 12 \<longrightarrow> ferror fp1) \<longleftrightarrow> f_error fp1"
    using c1 by (auto simp: length_gzheader)
  have d2: "int n2 = n \<and> \<not> ferror fp2 \<longleftrightarrow> \<not> f_error fp2"
    using c2 by auto
  have d3: "(int n2 = n \<longrightarrow> ferror fp2) \<longleftrightarrow> f_error fp2"
    using c2 by auto
  consider "f_error fp1" "f_error fp2" | "\<not> f_error fp1" "f_error fp2" | "\<not> f_error fp1" "\<not> f_error fp2"
    using mono by blast
  then show ?thesis
  proof cases
    case 1
    then show ?thesis
      unfolding write_header_def Let_def zb fp2
      using lim ok assms(1) n0
      by (simp add: f1 f2 d1 d2 d3 d4 length_gzheader)
  next
    case 2
    then have "n \<noteq> 0" using n0 by auto
    with 2 show ?thesis
      unfolding write_header_def Let_def zb fp2
      using lim ok assms(1)
      by (simp add: f1 f2 d1 d2 d3 d4 length_gzheader)
  next
    case 3
    then show ?thesis
      unfolding write_header_def Let_def zb fp2
      using lim ok assms(1) n0
      by (simp add: f1 f2 d1 d2 d3 d4 length_gzheader)
  qed
qed

lemma write_empty_eq:
  assumes "w_fp w = Some fp"
  shows "write_empty Z w =
    (let fp' = snd (fwrite [0x03, 0x00] fp)
     in if f_error fp' then Ret (1, w\<lparr>w_fp := Some fp', w_error := Strerror\<rparr>)
        else Ret (0, w\<lparr>w_fp := Some fp', w_zoffset := w_zoffset w + 2, w_usize := 0,
                       w_ucrc32 := crc32 Z 0 []\<rparr>))"
  using assms by (auto simp: write_empty_def fwrite_def Let_def ferror_def)

lemma footer_eq:
  "take 4 (packInt32 (replicate 8 0) c) @ packInt32 (drop 4 (packInt32 (replicate 8 0) c)) u
   = le32 c @ le32 u"
  by (simp add: packInt32_le)

lemma write_trailer_eq:
  assumes "w_fp w = Some fp"
  shows "write_trailer w =
    (let fp' = snd (fwrite (le32 (w_ucrc32 w) @ le32 (word_of_int (w_usize w))) fp)
     in if f_error fp' then Ret (1, w\<lparr>w_fp := Some fp', w_error := Strerror\<rparr>)
        else Ret (0, w\<lparr>w_fp := Some fp', w_zoffset := w_zoffset w + 8\<rparr>))"
  using assms unfolding write_trailer_def Let_def footer_eq
  by (auto simp: fwrite_def Let_def ferror_def)

lemma fwrite_ok:
  "\<not> f_error (snd (fwrite d fp)) \<Longrightarrow>
     \<not> f_error fp \<and> length d \<le> f_room fp \<and> f_bytes (snd (fwrite d fp)) = f_bytes fp @ d
     \<and> f_room (snd (fwrite d fp)) = f_room fp - length d"
  by (auto simp: fwrite_def Let_def)

lemma wrote_trans:
  "wrote w w' a \<Longrightarrow> wrote w' w'' b \<Longrightarrow> wrote w w'' (a @ b)"
  by (auto simp: wrote_def split: option.splits)

lemma wrote_fp: "wrote w w' out \<Longrightarrow> \<exists>fp. w_fp w = Some fp \<and> \<not> f_error fp"
  by (auto simp: wrote_def split: option.splits)

lemma kept_trans: "kept w w' \<Longrightarrow> kept w' w'' \<Longrightarrow> kept w w''"
  by (simp add: kept_def)

lemma write_header_pre:
  assumes "write_header extra n w = Ret x"
  shows "n < 65535 \<and> w_fp w \<noteq> None \<and> 0 \<le> n \<and> nat n \<le> length extra"
proof -
  have 1: "n < 65535" using assms
    by (cases "n < 65535") (simp_all add: write_header_def GZIP_FEXTRA_MAX_def)
  have 2: "w_fp w \<noteq> None" using assms 1
    by (cases "w_fp w") (simp_all add: write_header_def GZIP_FEXTRA_MAX_def)
  then obtain fp where fp: "w_fp w = Some fp" by auto
  have 3: "n = 0 \<or> \<not> (n < 0 \<or> length extra < nat n)"
  proof (rule ccontr)
    assume "\<not> ?thesis"
    then have "n \<noteq> 0" "n < 0 \<or> length extra < nat n" by auto
    then have "write_header extra n w = UB"
      using 1 fp by (simp add: write_header_def GZIP_FEXTRA_MAX_def Let_def split: prod.splits)
    with assms show False by simp
  qed
  show ?thesis using 1 2 3 by auto
qed

lemma write_trailer_wrote:
  assumes "write_trailer w = Ret (0, w')"
  shows "wrote w w' (le32 (w_ucrc32 w) @ le32 (word_of_int (w_usize w))) \<and> kept w w'"
proof -
  obtain fp where fp: "w_fp w = Some fp"
    using assms by (cases "w_fp w") (simp_all add: write_trailer_def)
  show ?thesis
    using assms fwrite_ok [of "le32 (w_ucrc32 w) @ le32 (word_of_int (w_usize w))" fp]
    by (auto simp: write_trailer_eq [OF fp] Let_def wrote_def kept_def fp split: if_splits)
qed

lemma on_ok_zero:
  "on_ok x k = Ret (0, s') \<Longrightarrow> \<exists>s. x = Ret (0, s) \<and> k s = Ret (0, s')"
  by (cases x) (auto split: if_splits)

lemma write_empty_wrote:
  assumes "write_empty Z w = Ret (0, w')"
  shows "wrote w w' [0x03, 0x00] \<and> kept w w' \<and> w_usize w' = 0 \<and> w_ucrc32 w' = crc32 Z 0 []"
proof -
  obtain fp where fp: "w_fp w = Some fp"
    using assms by (cases "w_fp w") (simp_all add: write_empty_def)
  show ?thesis
    using assms fwrite_ok [of "[0x03, 0x00]" fp]
    by (auto simp: write_empty_eq [OF fp] Let_def wrote_def kept_def fp split: if_splits)
qed

lemma write_header_wrote:
  assumes "write_header extra n w = Ret (r, w')"
  shows "r = 0 \<and> kept w w' \<and> 0 \<le> n \<and> n < 65535 \<and> nat n \<le> length extra
         \<and> (\<exists>fp'. w_fp w' = Some fp'
               \<and> (\<not> f_error fp' \<longrightarrow> wrote w w' (gz_header (w_mtime w) n @ take (nat n) extra)))"
proof -
  note pre = write_header_pre [OF assms]
  then obtain fp where fp: "w_fp w = Some fp" by auto
  let ?h = "gz_header (w_mtime w) n @ take (nat n) extra"
  have len: "length ?h = 12 + nat n" using pre by simp
  show ?thesis
    using assms write_header_eq [OF fp, of n extra] pre fwrite_ok [of ?h fp] len
    by (auto simp: Let_def wrote_def kept_def fp)
qed

lemma write_member_wrote:
  assumes "write_member Z extra n w = Ret (0, w')"
  shows "wrote w w' (zero_member Z (w_mtime w) (take (nat n) extra)) \<and> kept w w'
         \<and> 0 \<le> n \<and> n < 65535 \<and> nat n \<le> length extra"
proof -
  obtain w1 where h: "write_header extra n w = Ret (0, w1)"
    and r1: "on_ok (write_empty Z w1) (\<lambda>w. on_ok (write_trailer w) (\<lambda>w. Ret (0, w))) = Ret (0, w')"
    using on_ok_zero [OF assms [unfolded write_member_def]] by auto
  obtain w2 where e: "write_empty Z w1 = Ret (0, w2)"
    and r2: "on_ok (write_trailer w2) (\<lambda>w. Ret (0, w)) = Ret (0, w')"
    using on_ok_zero [OF r1] by auto
  have t: "write_trailer w2 = Ret (0, w')"
    using on_ok_zero [OF r2] by auto
  note H = write_header_wrote [OF h]
  note E = write_empty_wrote [OF e]
  note T = write_trailer_wrote [OF t]
  have "wrote w w1 (gz_header (w_mtime w) n @ take (nat n) extra)"
    using H wrote_fp [OF conjunct1 [OF E]] by auto
  from wrote_trans [OF wrote_trans [OF this conjunct1 [OF E]] conjunct1 [OF T]]
  have "wrote w w' (zero_member Z (w_mtime w) (take (nat n) extra))"
    using H E by (simp add: zero_member_def)
  moreover have "kept w w'" using H E T by (simp add: kept_def)
  ultimately show ?thesis using H by simp
qed

lemma fwrite_pair_ok:
  assumes "fwrite d fp = (n, fp1)" "\<not> ferror fp1"
  shows "(n = length d) = True" "\<not> f_error fp" "f_bytes fp1 = f_bytes fp @ d" "length d \<le> f_room fp"
    "f_room fp1 = f_room fp - length d" "\<not> f_error fp1"
  using assms by (auto simp: fwrite_def Let_def ferror_def split: if_splits)

lemma fwrite_pair_len:
  assumes "fwrite d fp = (n, fp1)" "\<not> ferror fp1"
  shows "n = length d"
  using assms by (auto simp: fwrite_def Let_def ferror_def split: if_splits)

lemma wrote_step:
  assumes "w_fp w = Some fp" "fwrite d fp = (n, fp1)" "\<not> ferror fp1"
    "w_fp w' = Some fp1" "w_zoffset w' = w_zoffset w + int (length d)"
  shows "wrote w w' d"
  using assms fwrite_pair_ok [OF assms(2,3)] by (simp add: wrote_def)

lemma wrote_cong:
  "wrote w0 w' out \<Longrightarrow> w_fp w0 = w_fp w \<Longrightarrow> w_zoffset w0 = w_zoffset w \<Longrightarrow> wrote w w' out"
  by (auto simp: wrote_def split: option.splits)

lemma flush_loop_result:
  assumes "flush_loop Z fl w = Some y"
  shows "\<forall>ret w'. y = Ret (ret, w') \<longrightarrow>
      kept w w' \<and> w_usize w' = w_usize w \<and> w_ucrc32 w' = w_ucrc32 w
      \<and> (ret = 0 \<longrightarrow> (\<exists>out. wrote w w' out))
      \<and> (ret \<noteq> 0 \<longrightarrow> w_error w' = Strerror \<or> (\<exists>e. w_error w' = ZError e))"
proof (rule flush_loop.raw_induct [where P = "\<lambda>Z fl w y. \<forall>ret w'. y = Ret (ret, w') \<longrightarrow>
      kept w w' \<and> w_usize w' = w_usize w \<and> w_ucrc32 w' = w_ucrc32 w
      \<and> (ret = 0 \<longrightarrow> (\<exists>out. wrote w w' out))
      \<and> (ret \<noteq> 0 \<longrightarrow> w_error w' = Strerror \<or> (\<exists>e. w_error w' = ZError e))", OF _ assms], goal_cases)
  case (1 flush_loop Z fl w y)
  obtain zr out zs where zc: "zlib_call (deflate Z) ((w_zs w)\<lparr>avail_out := MZGF_BLOCK_SIZE\<rparr>) fl = (zr, out, zs)"
    by (cases "zlib_call (deflate Z) ((w_zs w)\<lparr>avail_out := MZGF_BLOCK_SIZE\<rparr>) fl") auto
  define w1 where "w1 = w\<lparr>w_zs := zs, w_zblock := out @ drop (length out) (w_zblock w)\<rparr>"
  show ?case
  proof (cases "zr \<noteq> Z_OK \<and> zr \<noteq> Z_STREAM_END")
    case True
    then have "y = Ret (1, w1\<lparr>w_error := ZError zr\<rparr>)"
      using 1(2) zc by (simp add: Let_def w1_def)
    then show ?thesis by (simp add: w1_def kept_def)
  next
    case ok: False
    show ?thesis
    proof (cases "w_fp w")
      case None
      then have "y = UB" using 1(2) zc ok by (simp add: Let_def)
      then show ?thesis by simp
    next
      case (Some fp)
      define d where "d = take (MZGF_BLOCK_SIZE - avail_out zs) (w_zblock w1)"
      obtain n fp1 where fw: "fwrite d fp = (n, fp1)" by force
      show ?thesis
      proof (cases "n \<noteq> MZGF_BLOCK_SIZE - avail_out zs \<or> ferror fp1")
        case True
        then have "y = Ret (1, w1\<lparr>w_fp := Some fp1, w_error := Strerror\<rparr>)"
          using 1(2) zc ok Some fw by (simp add: Let_def w1_def d_def)
        then show ?thesis by (simp add: w1_def kept_def)
      next
        case False
        define w3 where "w3 = w1\<lparr>w_fp := Some fp1,
            w_zoffset := w_zoffset w1 + int (MZGF_BLOCK_SIZE - avail_out zs)\<rparr>"
        have len: "length d = MZGF_BLOCK_SIZE - avail_out zs"
          using fwrite_pair_len [OF fw] False by simp
        have wr: "wrote w w3 d"
          by (rule wrote_step [OF Some fw]) (use False len in \<open>simp_all add: w3_def w1_def\<close>)
        have k3: "kept w w3" "w_usize w3 = w_usize w" "w_ucrc32 w3 = w_ucrc32 w"
          by (simp_all add: w3_def w1_def kept_def)
        show ?thesis
        proof (cases "avail_out zs = 0")
          case True
          then have "flush_loop Z fl w3 = Some y"
            using 1(2) zc ok Some fw False by (simp add: Let_def w1_def d_def w3_def)
          note ih = 1(1) [OF this]
          show ?thesis
          proof (intro allI impI)
            fix ret w' assume y: "y = Ret (ret, w')"
            from ih y have a: "kept w3 w'" "w_usize w' = w_usize w3" "w_ucrc32 w' = w_ucrc32 w3"
              "ret = 0 \<longrightarrow> (\<exists>out. wrote w3 w' out)"
              "ret \<noteq> 0 \<longrightarrow> w_error w' = Strerror \<or> (\<exists>e. w_error w' = ZError e)"
              by blast+
            have "ret = 0 \<longrightarrow> (\<exists>out. wrote w w' out)"
              using a(4) wrote_trans [OF wr] by blast
            then show "kept w w' \<and> w_usize w' = w_usize w \<and> w_ucrc32 w' = w_ucrc32 w
                \<and> (ret = 0 \<longrightarrow> (\<exists>out. wrote w w' out))
                \<and> (ret \<noteq> 0 \<longrightarrow> w_error w' = Strerror \<or> (\<exists>e. w_error w' = ZError e))"
              using a k3 kept_trans [OF k3(1) a(1)] by simp
          qed
        next
          case nz: False
          then have "y = Ret (0, w3)"
            using 1(2) zc ok Some fw False by (simp add: Let_def w1_def d_def w3_def)
          then show ?thesis using wr k3 by auto
        qed
      qed
    qed
  qed
qed

lemma flush_result:
  assumes "flush Z w = Some (Ret (ret, w'))"
  shows "kept w w'
      \<and> (ret = 0 \<longrightarrow> (\<exists>out. wrote w w' out))
      \<and> (ret \<noteq> 0 \<longrightarrow> w_error w' = Strerror \<or> (\<exists>e. w_error w' = ZError e))"
proof -
  define w0 where "w0 = w\<lparr>w_usize := w_usize w + int (avail_in (w_zs w)),
                w_ucrc32 := crc32 Z (w_ucrc32 w) (take (avail_in (w_zs w)) (w_ublock w))\<rparr>"
  have "flush_loop Z (if avail_in (w_zs w) < MZGF_BLOCK_SIZE then Z_FINISH else Z_FULL_FLUSH) w0
        = Some (Ret (ret, w'))"
    using assms by (simp add: flush_def Let_def w0_def)
  from flush_loop_result [OF this]
  have a: "kept w0 w'" "ret = 0 \<longrightarrow> (\<exists>out. wrote w0 w' out)"
      "ret \<noteq> 0 \<longrightarrow> w_error w' = Strerror \<or> (\<exists>e. w_error w' = ZError e)"
    by blast+
  have "wrote w w' out" if "wrote w0 w' out" for out
    by (rule wrote_cong [OF that]) (simp_all add: w0_def)
  then show ?thesis using a by (auto simp: w0_def kept_def)
qed

lemma on_ok_cases:
  assumes "on_ok x k = Ret (r, s')"
  shows "(r \<noteq> 0 \<and> x = Ret (r, s')) \<or> (\<exists>s. x = Ret (0, s) \<and> k s = Ret (r, s'))"
  using assms by (cases x) (auto split: if_splits)

lemma write_empty_err:
  "write_empty Z w = Ret (r, w') \<Longrightarrow> r \<noteq> 0 \<Longrightarrow> w_error w' = Strerror \<and> kept w w'"
  by (auto simp: write_empty_def Let_def kept_def split: option.splits prod.splits if_splits)

lemma write_trailer_err:
  "write_trailer w = Ret (r, w') \<Longrightarrow> r \<noteq> 0 \<Longrightarrow> w_error w' = Strerror \<and> kept w w'"
  by (auto simp: write_trailer_def Let_def kept_def split: option.splits prod.splits if_splits)

lemma write_member_err:
  assumes "write_member Z extra n w = Ret (r, w')" "r \<noteq> 0"
  shows "w_error w' = Strerror \<and> kept w w'"
proof -
  from on_ok_cases [OF assms(1) [unfolded write_member_def]]
  consider "write_header extra n w = Ret (r, w')"
    | w1 where "write_header extra n w = Ret (0, w1)"
        "on_ok (write_empty Z w1) (\<lambda>w. on_ok (write_trailer w) (\<lambda>w. Ret (0, w))) = Ret (r, w')"
    by blast
  then show ?thesis
  proof cases
    case 1
    then show ?thesis using write_header_wrote [OF 1] assms(2) by simp
  next
    case 2
    note k1 = write_header_wrote [OF 2(1)]
    from on_ok_cases [OF 2(2)]
    consider "write_empty Z w1 = Ret (r, w')"
      | w2 where "write_empty Z w1 = Ret (0, w2)" "on_ok (write_trailer w2) (\<lambda>w. Ret (0, w)) = Ret (r, w')"
      by blast
    then show ?thesis
    proof cases
      case 1
      then show ?thesis using write_empty_err [OF 1 assms(2)] k1 by (simp add: kept_def)
    next
      case 2
      note k2 = write_empty_wrote [OF 2(1)]
      from on_ok_cases [OF 2(2)] assms(2)
      have "write_trailer w2 = Ret (r, w')" by auto
      from write_trailer_err [OF this assms(2)] show ?thesis using k1 k2 by (simp add: kept_def)
    qed
  qed
qed

lemma deflate_step_result:
  assumes "deflate_step Z src w = Some (Ret (ret, w', src'))"
  shows "src' = snd (fread MZGF_BLOCK_SIZE src)"
    "w_mtime w' = w_mtime w" "w_bindex_offset w' = w_bindex_offset w"
    "ret \<noteq> 0 \<longrightarrow> w_error w' = Strerror \<or> (\<exists>e. w_error w' = ZError e)"
    "ret = 0 \<longrightarrow> (\<exists>out. wrote w w' out)
        \<and> w_bindex w' = w_bindex w @ [\<lparr>zoffset = word_of_int (w_zoffset w), uoffset = word_of_int (w_uoffset w)\<rparr>]
        \<and> w_uoffset w' = w_uoffset w + int (length (fst (fread MZGF_BLOCK_SIZE src)))"
proof -
  obtain buf src1 where fr: "fread MZGF_BLOCK_SIZE src = (buf, src1)" by force
  define w1 where "w1 = w\<lparr>w_ublock := buf @ drop (length buf) (w_ublock w),
                    w_zs := (w_zs w)\<lparr>next_in := buf\<rparr>\<rparr>"
  define w2 where "w2 = w1\<lparr>w_bindex := w_bindex w1 @ [\<lparr>zoffset = word_of_int (w_zoffset w1),
       uoffset = word_of_int (w_uoffset w1)\<rparr>],
       w_uoffset := w_uoffset w1 + int (avail_in (w_zs w1))\<rparr>"
  have all: "src' = snd (fread MZGF_BLOCK_SIZE src) \<and>
    w_mtime w' = w_mtime w \<and> w_bindex_offset w' = w_bindex_offset w \<and>
    (ret \<noteq> 0 \<longrightarrow> w_error w' = Strerror \<or> (\<exists>e. w_error w' = ZError e)) \<and>
    (ret = 0 \<longrightarrow> (\<exists>out. wrote w w' out)
        \<and> w_bindex w' = w_bindex w @ [\<lparr>zoffset = word_of_int (w_zoffset w), uoffset = word_of_int (w_uoffset w)\<rparr>]
        \<and> w_uoffset w' = w_uoffset w + int (length (fst (fread MZGF_BLOCK_SIZE src))))"
  proof (cases "ferror src1")
    case True
    then have "ret = 1" "w' = w1\<lparr>w_error := Strerror\<rparr>" "src' = src1"
      using assms fr by (simp_all add: deflate_step_def Let_def w1_def)
    then show ?thesis using fr by (simp add: w1_def)
  next
    case False
    then have m: "map_option (\<lambda>x. case x of Ret (ret, w) \<Rightarrow> Ret (ret, w, src1)
                                   | Exit n \<Rightarrow> Exit n | Abort \<Rightarrow> Abort | UB \<Rightarrow> UB)
                    (flush Z w2) = Some (Ret (ret, w', src'))"
      using assms fr by (simp add: deflate_step_def Let_def w1_def w2_def)
    then obtain x where x: "flush Z w2 = Some x" by auto
    have "x = Ret (ret, w') \<and> src' = src1"
      using m x by (cases x) auto
    then have f: "flush Z w2 = Some (Ret (ret, w'))" and s: "src' = src1" using x by auto
    note r = flush_result [OF f]
    have "wrote w w' out" if "wrote w2 w' out" for out
      by (rule wrote_cong [OF that]) (simp_all add: w2_def w1_def)
    then show ?thesis using r s fr
      by (auto simp: kept_def w2_def w1_def avail_in_def)
  qed
  show "src' = snd (fread MZGF_BLOCK_SIZE src)"
    "w_mtime w' = w_mtime w" "w_bindex_offset w' = w_bindex_offset w"
    "ret \<noteq> 0 \<longrightarrow> w_error w' = Strerror \<or> (\<exists>e. w_error w' = ZError e)"
    "ret = 0 \<longrightarrow> (\<exists>out. wrote w w' out)
        \<and> w_bindex w' = w_bindex w @ [\<lparr>zoffset = word_of_int (w_zoffset w), uoffset = word_of_int (w_uoffset w)\<rparr>]
        \<and> w_uoffset w' = w_uoffset w + int (length (fst (fread MZGF_BLOCK_SIZE src)))"
    using all by blast+
qed

lemma deflate_loop_result:
  "deflate_loop Z src w = Some (Ret (ret, w', src')) \<Longrightarrow>
     w_mtime w' = w_mtime w \<and> w_bindex_offset w' = w_bindex_offset w
     \<and> (ret \<noteq> 0 \<longrightarrow> w_error w' = Strerror \<or> (\<exists>e. w_error w' = ZError e))
     \<and> (ret = 0 \<longrightarrow> (\<exists>out. wrote w w' out)
          \<and> (\<exists>more. w_bindex w' = w_bindex w
                @ \<lparr>zoffset = word_of_int (w_zoffset w), uoffset = word_of_int (w_uoffset w)\<rparr> # more))"
proof (induction Z src w rule: deflate_loop.induct)
  case (1 Z src w)
  from "1.prems" obtain r1 w1 src1 where st: "deflate_step Z src w = Some (Ret (r1, w1, src1))"
    by (subst (asm) deflate_loop.simps) (auto split: option.splits outcome.splits)
  note s = deflate_step_result [OF st]
  show ?case
  proof (cases "r1 = 0 \<and> \<not> feof src1")
    case False
    then have "ret = r1" "w' = w1" "src' = src1"
      using "1.prems" st by (subst (asm) deflate_loop.simps, simp)+
    then show ?thesis using s by auto
  next
    case True
    then have rec: "deflate_loop Z src1 w1 = Some (Ret (ret, w', src'))"
      using "1.prems" st by (subst (asm) deflate_loop.simps) simp
    have ih: "w_mtime w' = w_mtime w1 \<and> w_bindex_offset w' = w_bindex_offset w1
     \<and> (ret \<noteq> 0 \<longrightarrow> w_error w' = Strerror \<or> (\<exists>e. w_error w' = ZError e))
     \<and> (ret = 0 \<longrightarrow> (\<exists>out. wrote w1 w' out)
          \<and> (\<exists>more. w_bindex w' = w_bindex w1
                @ \<lparr>zoffset = word_of_int (w_zoffset w1), uoffset = word_of_int (w_uoffset w1)\<rparr> # more))"
      using "1.IH" [OF st refl refl refl _ rec] True by simp
    obtain o1 where o1: "wrote w w1 o1" using s(5) True by auto
    have "\<exists>out. wrote w w' out" if "ret = 0"
      using ih that wrote_trans [OF o1] by blast
    then show ?thesis using ih s True by auto
  qed
qed

lemma take2_keep:
  assumes "2 \<le> off" "take 2 eb = [a, b]"
  shows "take 2 (take off eb @ X) = [a, b]"
proof -
  have "length (take 2 eb) = 2" using assms(2) by simp
  then have l: "2 \<le> length eb" by simp
  then have "2 \<le> length (take off eb)" using assms(1) by simp
  then have "take 2 (take off eb @ X) = take 2 (take off eb)" by simp
  also have "\<dots> = take 2 eb" using assms(1) by (simp add: min_def)
  finally show ?thesis using assms(2) by simp
qed

lemma write_bindex_step_result:
  assumes "write_bindex_step Z bi lst off g w = Ret (ret, off', g', w')"
  shows "kept w w'" "ret \<noteq> 0 \<longrightarrow> w_error w' = Strerror"
    "ret = 0 \<longrightarrow> (w' = w \<and> \<not> lst \<and> off' = off + 16)
       \<or> (\<exists>eb. wrote w w' (zero_member Z (w_mtime w) (take (off + 16) eb))
              \<and> (2 \<le> off \<and> take 2 (extra_bindex g) = [0x42, 0x49] \<longrightarrow> take 2 eb = [0x42, 0x49]))"
    "2 \<le> off \<and> take 2 (extra_bindex g) = [0x42, 0x49] \<longrightarrow> take 2 (extra_bindex g') = [0x42, 0x49]"
    "2 \<le> off'" "extra_eof g' = extra_eof g"
proof -
  define eb1 where "eb1 = take off (extra_bindex g) @ packInt64 (drop off (extra_bindex g)) (zoffset bi)"
  define eb2 where "eb2 = take (off + 8) eb1 @ packInt64 (drop (off + 8) eb1) (uoffset bi)"
  define nx where "nx = (if lst then 0 else w_zoffset w + int (length gzheader) + int (off + 8 + 8) + 2 + 8)"
  define eb3 where "eb3 = take 2 eb2 @ packInt16 (drop 2 eb2) (word_of_int (int (off + 8 + 8) - 4))"
  define eb4 where "eb4 = take 4 eb3 @ packInt64 (drop 4 eb3) (word_of_int nx)"
  have keep2: "take 2 eb2 = [0x42, 0x49]" if "2 \<le> off" "take 2 (extra_bindex g) = [0x42, 0x49]"
    unfolding eb2_def eb1_def using that by (intro take2_keep) simp_all
  have keep4: "take 2 eb4 = [0x42, 0x49]" if "2 \<le> off" "take 2 (extra_bindex g) = [0x42, 0x49]"
  proof -
    have "take 2 eb3 = [0x42, 0x49]"
      unfolding eb3_def by (intro take2_keep) (simp_all add: keep2 [OF that])
    then show ?thesis unfolding eb4_def by (intro take2_keep) simp_all
  qed
  have all: "kept w w' \<and> (ret \<noteq> 0 \<longrightarrow> w_error w' = Strerror)
    \<and> (ret = 0 \<longrightarrow> (w' = w \<and> \<not> lst \<and> off' = off + 16)
       \<or> (\<exists>eb. wrote w w' (zero_member Z (w_mtime w) (take (off + 16) eb))
              \<and> (2 \<le> off \<and> take 2 (extra_bindex g) = [0x42, 0x49] \<longrightarrow> take 2 eb = [0x42, 0x49])))
    \<and> (2 \<le> off \<and> take 2 (extra_bindex g) = [0x42, 0x49] \<longrightarrow> take 2 (extra_bindex g') = [0x42, 0x49])
    \<and> 2 \<le> off' \<and> extra_eof g' = extra_eof g"
  proof (cases "off + 8 + 8 + 16 \<ge> GZIP_FEXTRA_MAX \<or> lst")
    case False
    have "Ret (0, off + 8 + 8, g\<lparr>extra_bindex := eb2\<rparr>, w) = Ret (ret, off', g', w')"
      using assms unfolding write_bindex_step_def Let_def eb1_def eb2_def
      by (simp only: False if_False)
    then have "ret = 0" "off' = off + 8 + 8" "g' = g\<lparr>extra_bindex := eb2\<rparr>" "w' = w"
      by simp_all
    then show ?thesis
      using False keep2 by (simp add: kept_def)
  next
    case True
    then have c: "(case write_member Z eb4 (int (off + 8 + 8)) w of
                 Ret (ret, w) \<Rightarrow> Ret (ret, 12, g\<lparr>extra_bindex := eb4\<rparr>, w)
               | Exit n \<Rightarrow> Exit n | Abort \<Rightarrow> Abort | UB \<Rightarrow> UB) = Ret (ret, off', g', w')"
      using assms unfolding write_bindex_step_def Let_def eb1_def eb2_def eb3_def eb4_def nx_def
      by (simp only: True if_True)
    then obtain x where x: "write_member Z eb4 (int (off + 8 + 8)) w = Ret x"
      by (cases "write_member Z eb4 (int (off + 8 + 8)) w") auto
    then have m: "write_member Z eb4 (int (off + 8 + 8)) w = Ret (ret, w')"
      and o: "off' = 12" and g': "g' = g\<lparr>extra_bindex := eb4\<rparr>"
      using c by (cases x; simp)+
    have 1: "kept w w'"
      using write_member_err [OF m] write_member_wrote [of Z eb4 "int (off + 8 + 8)" w w'] m
      by (cases "ret = 0") auto
    have 2: "ret \<noteq> 0 \<longrightarrow> w_error w' = Strerror"
      using write_member_err [OF m] by auto
    have 3: "ret = 0 \<longrightarrow> (w' = w \<and> \<not> lst \<and> off' = off + 16)
       \<or> (\<exists>eb. wrote w w' (zero_member Z (w_mtime w) (take (off + 16) eb))
              \<and> (2 \<le> off \<and> take 2 (extra_bindex g) = [0x42, 0x49] \<longrightarrow> take 2 eb = [0x42, 0x49]))"
    proof
      assume "ret = 0"
      have n: "nat (int (off + 8 + 8)) = off + 16" by simp
      have "wrote w w' (zero_member Z (w_mtime w) (take (off + 16) eb4))"
        using write_member_wrote [of Z eb4 "int (off + 8 + 8)" w w'] m \<open>ret = 0\<close>
        unfolding n by blast
      then show "(w' = w \<and> \<not> lst \<and> off' = off + 16)
       \<or> (\<exists>eb. wrote w w' (zero_member Z (w_mtime w) (take (off + 16) eb))
              \<and> (2 \<le> off \<and> take 2 (extra_bindex g) = [0x42, 0x49] \<longrightarrow> take 2 eb = [0x42, 0x49]))"
        using keep4 by blast
    qed
    have 4: "2 \<le> off \<and> take 2 (extra_bindex g) = [0x42, 0x49] \<longrightarrow> take 2 (extra_bindex g') = [0x42, 0x49]"
      using keep4 g' by simp
    show ?thesis using 1 2 3 4 o g' by simp
  qed
  show "kept w w'" "ret \<noteq> 0 \<longrightarrow> w_error w' = Strerror"
    "ret = 0 \<longrightarrow> (w' = w \<and> \<not> lst \<and> off' = off + 16)
       \<or> (\<exists>eb. wrote w w' (zero_member Z (w_mtime w) (take (off + 16) eb))
              \<and> (2 \<le> off \<and> take 2 (extra_bindex g) = [0x42, 0x49] \<longrightarrow> take 2 eb = [0x42, 0x49]))"
    "2 \<le> off \<and> take 2 (extra_bindex g) = [0x42, 0x49] \<longrightarrow> take 2 (extra_bindex g') = [0x42, 0x49]"
    "2 \<le> off'" "extra_eof g' = extra_eof g"
    using all by blast+
qed

lemma write_bindex_loop_result:
  "write_bindex_loop Z bs off g w = Ret (ret, g', w') \<Longrightarrow>
     kept w w' \<and> (ret \<noteq> 0 \<longrightarrow> w_error w' = Strerror)
     \<and> (ret = 0 \<longrightarrow> w' = w \<or> (\<exists>out. wrote w w' out)) \<and> extra_eof g' = extra_eof g"
proof (induction bs arbitrary: off g w)
  case Nil
  then show ?case by (simp add: kept_def)
next
  case (Cons bi rest)
  from Cons.prems obtain r1 o1 g1 w1 where st: "write_bindex_step Z bi (rest = []) off g w = Ret (r1, o1, g1, w1)"
    by (auto split: outcome.splits)
  note s = write_bindex_step_result [OF st]
  show ?case
  proof (cases "r1 \<noteq> 0")
    case True
    then have "ret = r1" "w' = w1" using Cons.prems st by simp_all
    have "g' = g1" using Cons.prems st True by simp
    then show ?thesis using s True \<open>ret = r1\<close> \<open>w' = w1\<close> by simp
  next
    case False
    then have rec: "write_bindex_loop Z rest o1 g1 w1 = Ret (ret, g', w')"
      using Cons.prems st by simp
    note ih = Cons.IH [OF rec]
    have k: "kept w w'" using kept_trans [OF s(1)] ih by blast
    have "w' = w \<or> (\<exists>out. wrote w w' out)" if "ret = 0"
    proof -
      from s(3) False consider "w1 = w" | out1 where "wrote w w1 out1" by auto
      then show ?thesis
      proof cases
        case 1
        then show ?thesis using ih that by simp
      next
        case 2
        from ih that consider "w' = w1" | out2 where "wrote w1 w' out2" by auto
        then show ?thesis
          using 2 wrote_trans [OF 2] by cases auto
      qed
    qed
    then show ?thesis using k ih s(6) by simp
  qed
qed

lemma zero_member_BI:
  assumes "take 2 ex = [0x42, 0x49]"
  shows "\<exists>xlen rest. zero_member Z mt ex = gz_header mt xlen @ [0x42, 0x49] @ rest"
proof -
  have "ex = [0x42, 0x49] @ drop 2 ex" using assms append_take_drop_id [of 2 ex] by simp
  then have "zero_member Z mt ex = gz_header mt (int (length ex)) @ [0x42, 0x49]
      @ (drop 2 ex @ [0x03, 0x00] @ le32 (crc32 Z 0 []) @ le32 0)"
    unfolding zero_member_def by (metis append.assoc)
  then show ?thesis by blast
qed

lemma write_bindex_loop_first:
  "write_bindex_loop Z bs off g w = Ret (0, g', w') \<Longrightarrow> bs \<noteq> [] \<Longrightarrow> 2 \<le> off
   \<Longrightarrow> take 2 (extra_bindex g) = [0x42, 0x49]
   \<Longrightarrow> \<exists>xlen rest. wrote w w' (gz_header (w_mtime w) xlen @ [0x42, 0x49] @ rest)"
proof (induction bs arbitrary: off g w)
  case Nil
  then show ?case by simp
next
  case (Cons bi rest)
  from Cons.prems(1) obtain r1 o1 g1 w1 where st: "write_bindex_step Z bi (rest = []) off g w = Ret (r1, o1, g1, w1)"
    by (auto split: outcome.splits)
  note s = write_bindex_step_result [OF st]
  have r1: "r1 = 0" using Cons.prems(1) st by (auto split: if_splits)
  then have rec: "write_bindex_loop Z rest o1 g1 w1 = Ret (0, g', w')"
    using Cons.prems(1) st by simp
  from s(3) r1 consider "w1 = w" "rest \<noteq> []"
    | eb where "wrote w w1 (zero_member Z (w_mtime w) (take (off + 16) eb))" "take 2 eb = [0x42, 0x49]"
    using Cons.prems(3,4) by auto
  then show ?case
  proof cases
    case 1
    have "take 2 (extra_bindex g1) = [0x42, 0x49]" using s(4) Cons.prems(3,4) by simp
    from Cons.IH [OF rec 1(2) s(5) this] 1(1) show ?thesis by simp
  next
    case 2
    have "take 2 (take (off + 16) eb) = [0x42, 0x49]"
      using 2(2) Cons.prems(3) by (simp add: min_def)
    from zero_member_BI [OF this, of Z "w_mtime w"]
    obtain xlen rest1 where z: "zero_member Z (w_mtime w) (take (off + 16) eb)
        = gz_header (w_mtime w) xlen @ [0x42, 0x49] @ rest1" by blast
    from write_bindex_loop_result [OF rec]
    consider "w' = w1" | out2 where "wrote w1 w' out2" by auto
    then show ?thesis
    proof cases
      case 1
      then show ?thesis using 2(1) z by auto
    next
      case 2
      from wrote_trans [OF \<open>wrote w w1 _\<close> 2]
      have "wrote w w' (gz_header (w_mtime w) xlen @ [0x42, 0x49] @ (rest1 @ out2))"
        by (simp add: z)
      then show ?thesis by blast
    qed
  qed
qed

lemma eof_extra:
  assumes "length ee = 20"
  shows "take 12 (take 4 ee @ packInt64 (drop 4 ee) (word_of_int u))
           @ packInt64 (drop 12 (take 4 ee @ packInt64 (drop 4 ee) (word_of_int u))) (word_of_int b)
         = bo_extra (take 4 ee) u b"
  using assms by (simp add: packInt64_le bo_extra_def)

lemma lift_g_Ret:
  "lift_g g x = Ret (ret, g', s') \<longleftrightarrow> x = Ret (ret, s') \<and> g' = g"
  by (cases x) (auto simp: lift_g_def)

lemma wrote_no_error:
  "wrote w w' out \<Longrightarrow> \<exists>fp'. w_fp w' = Some fp' \<and> \<not> f_error fp'"
  by (auto simp: wrote_def split: option.splits)

lemma write_eof_result:
  assumes "write_eof Z g w = Ret (ret, g', w')"
  shows "kept w w' \<and> (ret \<noteq> 0 \<longrightarrow> w_error w' = Strerror)
    \<and> (ret = 0 \<longrightarrow> (\<exists>out. wrote w w' out))
    \<and> (ret = 0 \<and> length (extra_eof g) = 20 \<longrightarrow>
         wrote w w' (zero_member Z (w_mtime w)
           (bo_extra (take 4 (extra_eof g)) (w_uoffset w) (w_bindex_offset w))))"
proof -
  define ee where "ee = take 12 (take 4 (extra_eof g) @ packInt64 (drop 4 (extra_eof g)) (word_of_int (w_uoffset w)))
     @ packInt64 (drop 12 (take 4 (extra_eof g) @ packInt64 (drop 4 (extra_eof g)) (word_of_int (w_uoffset w))))
         (word_of_int (w_bindex_offset w))"
  have "lift_g (g\<lparr>extra_eof := ee\<rparr>) (write_member Z ee 20 w) = Ret (ret, g', w')"
    using assms unfolding write_eof_def Let_def ee_def .
  then have m: "write_member Z ee 20 w = Ret (ret, w')" by (simp add: lift_g_Ret)
  have ee20: "ee = bo_extra (take 4 (extra_eof g)) (w_uoffset w) (w_bindex_offset w)"
    if "length (extra_eof g) = 20"
    unfolding ee_def by (rule eof_extra [OF that])
  have len: "length ee = 20" if "length (extra_eof g) = 20"
    using that by (simp add: ee20 bo_extra_def)
  show ?thesis
  proof (cases "ret = 0")
    case False
    then show ?thesis using write_member_err [OF m] by simp
  next
    case True
    note w = write_member_wrote [OF m [unfolded True]]
    have "wrote w w' (zero_member Z (w_mtime w)
           (bo_extra (take 4 (extra_eof g)) (w_uoffset w) (w_bindex_offset w)))"
      if "length (extra_eof g) = 20"
      using w len [OF that] ee20 [OF that] by simp
    then show ?thesis using w True by auto
  qed
qed

lemma write_bindex_result:
  assumes "write_bindex Z g w = Ret (ret, g', w')"
  shows "w_mtime w' = w_mtime w \<and> w_bindex w' = w_bindex w \<and> w_uoffset w' = w_uoffset w
    \<and> w_bindex_offset w' = w_zoffset w \<and> extra_eof g' = extra_eof g
    \<and> (ret \<noteq> 0 \<longrightarrow> w_error w' = Strerror)
    \<and> (ret = 0 \<longrightarrow> w_fp w' = w_fp w \<and> w_zoffset w' = w_zoffset w \<or> (\<exists>out. wrote w w' out))
    \<and> (ret = 0 \<and> w_bindex w \<noteq> [] \<and> take 2 (extra_bindex g) = [0x42, 0x49] \<longrightarrow>
          (\<exists>xlen rest. wrote w w' (gz_header (w_mtime w) xlen @ [0x42, 0x49] @ rest)))"
proof -
  define w0 where "w0 = w\<lparr>w_bindex_offset := w_zoffset w\<rparr>"
  have l: "write_bindex_loop Z (w_bindex w) 12 g w0 = Ret (ret, g', w')"
    using assms by (simp add: write_bindex_def w0_def)
  note r = write_bindex_loop_result [OF l]
  have c: "wrote w w' out" if "wrote w0 w' out" for out
    by (rule wrote_cong [OF that]) (simp_all add: w0_def)
  have f: "\<exists>xlen rest. wrote w w' (gz_header (w_mtime w) xlen @ [0x42, 0x49] @ rest)"
    if "ret = 0" "w_bindex w \<noteq> []" "take 2 (extra_bindex g) = [0x42, 0x49]"
  proof -
    have "\<exists>xlen rest. wrote w0 w' (gz_header (w_mtime w0) xlen @ [0x42, 0x49] @ rest)"
      by (rule write_bindex_loop_first [OF l [unfolded that(1)] that(2) _ that(3)]) simp
    then show ?thesis using c by (auto simp: w0_def)
  qed
  have "w_fp w' = w_fp w \<and> w_zoffset w' = w_zoffset w \<or> (\<exists>out. wrote w w' out)" if "ret = 0"
    using r that c by (auto simp: w0_def)
  then show ?thesis using r f by (auto simp: kept_def w0_def)
qed

text \<open>The ways \<open>deflate\<close> returns.\<close>

lemma deflate_cases:
  assumes "MZGFileWriter_deflate Z g w src dst = Some (Ret (ret, g', w', src', dst'))"
  obtains
    (init) st where "deflateInit2 Z = (ret, st)" "ret \<noteq> 0"
      "w' = w\<lparr>w_zs := (w_zs w)\<lparr>zstate := st\<rparr>, w_error := ZError ret\<rparr>" "dst' = dst" "g' = g"
  | (loop) st w1 where "deflateInit2 Z = (0, st)"
      "write_header (extra_mzgf g) 5
         (w\<lparr>w_zs := (w_zs w)\<lparr>zstate := st\<rparr>, w_fp := Some dst, w_uoffset := 0, w_usize := 0,
            w_ucrc32 := crc32 Z 0 [], w_zoffset := 0\<rparr>) = Ret (0, w1)"
      "deflate_loop Z src w1 = Some (Ret (ret, w', src'))" "ret \<noteq> 0" "g' = g"
  | (tail) st w1 w2 w5 where "deflateInit2 Z = (0, st)"
      "write_header (extra_mzgf g) 5
         (w\<lparr>w_zs := (w_zs w)\<lparr>zstate := st\<rparr>, w_fp := Some dst, w_uoffset := 0, w_usize := 0,
            w_ucrc32 := crc32 Z 0 [], w_zoffset := 0\<rparr>) = Ret (0, w1)"
      "deflate_loop Z src w1 = Some (Ret (0, w2, src'))"
      "on_ok (lift_g g (write_trailer w2)) (\<lambda>(g, w). on_ok (write_bindex Z g w) (\<lambda>(g, w). write_eof Z g w))
         = Ret (ret, g', w5)"
      "w' = (if ret \<noteq> 0 then w5 else w5\<lparr>w_fp := None\<rparr>)" "dst' = stream_of w5 dst"
proof -
  have cb: "compressBound Z MZGF_BLOCK_SIZE < MZGF_MAX_BLOCK_SIZE"
    using assms by (auto simp: MZGFileWriter_deflate_def split: if_splits)
  obtain r0 st where i: "deflateInit2 Z = (r0, st)" by force
  show thesis
  proof (cases "r0 \<noteq> 0")
    case True
    then have "ret = r0 \<and> w' = w\<lparr>w_zs := (w_zs w)\<lparr>zstate := st\<rparr>, w_error := ZError ret\<rparr> \<and> dst' = dst \<and> g' = g"
      using assms cb i by (auto simp: MZGFileWriter_deflate_def Let_def)
    then show ?thesis using init i True by blast
  next
    case False
    then have r0: "r0 = 0" by simp
    define w0 where "w0 = w\<lparr>w_zs := (w_zs w)\<lparr>zstate := st\<rparr>, w_fp := Some dst, w_uoffset := 0, w_usize := 0,
            w_ucrc32 := crc32 Z 0 [], w_zoffset := 0\<rparr>"
    have a: "(case write_header (extra_mzgf g) 5 w0 of
                     Ret (ret, w) \<Rightarrow>
                       if ret \<noteq> 0 then Some (Ret (ret, g, w, src, stream_of w dst))
                       else
                         (case deflate_loop Z src w of
                            None \<Rightarrow> None
                          | Some (Ret (ret, w, src)) \<Rightarrow>
                              if ret \<noteq> 0 then Some (Ret (ret, g, w, src, stream_of w dst))
                              else
                                Some
                                  (case on_ok (lift_g g (write_trailer w)) (\<lambda>(g, w).
                                        on_ok (write_bindex Z g w) (\<lambda>(g, w).
                                        write_eof Z g w)) of
                                     Ret (ret, g, w) \<Rightarrow>
                                       if ret \<noteq> 0 then Ret (ret, g, w, src, stream_of w dst)
                                       else Ret (ret, g, w\<lparr>w_fp := None\<rparr>, src, stream_of w dst)
                                   | Exit n \<Rightarrow> Exit n | Abort \<Rightarrow> Abort | UB \<Rightarrow> UB)
                          | Some (Exit n) \<Rightarrow> Some (Exit n)
                          | Some Abort \<Rightarrow> Some Abort
                          | Some UB \<Rightarrow> Some UB)
                   | Exit n \<Rightarrow> Some (Exit n) | Abort \<Rightarrow> Some Abort | UB \<Rightarrow> Some UB)
        = Some (Ret (ret, g', w', src', dst'))"
      using assms cb i r0 by (simp add: MZGFileWriter_deflate_def Let_def w0_def)
    obtain x where hx: "write_header (extra_mzgf g) 5 w0 = Ret x"
      using a by (cases "write_header (extra_mzgf g) 5 w0") auto
    obtain rh w1 where x: "x = (rh, w1)" by (cases x)
    have rh: "rh = 0" using write_header_wrote [OF hx [unfolded x]] by simp
    have h: "write_header (extra_mzgf g) 5 w0 = Ret (0, w1)" using hx x rh by simp
    have b: "(case deflate_loop Z src w1 of
                            None \<Rightarrow> None
                          | Some (Ret (ret, w, src)) \<Rightarrow>
                              if ret \<noteq> 0 then Some (Ret (ret, g, w, src, stream_of w dst))
                              else
                                Some
                                  (case on_ok (lift_g g (write_trailer w)) (\<lambda>(g, w).
                                        on_ok (write_bindex Z g w) (\<lambda>(g, w).
                                        write_eof Z g w)) of
                                     Ret (ret, g, w) \<Rightarrow>
                                       if ret \<noteq> 0 then Ret (ret, g, w, src, stream_of w dst)
                                       else Ret (ret, g, w\<lparr>w_fp := None\<rparr>, src, stream_of w dst)
                                   | Exit n \<Rightarrow> Exit n | Abort \<Rightarrow> Abort | UB \<Rightarrow> UB)
                          | Some (Exit n) \<Rightarrow> Some (Exit n)
                          | Some Abort \<Rightarrow> Some Abort
                          | Some UB \<Rightarrow> Some UB)
        = Some (Ret (ret, g', w', src', dst'))"
      using a by (simp add: h)
    then obtain y where ly: "deflate_loop Z src w1 = Some y"
      by (cases "deflate_loop Z src w1") auto
    then obtain rl w2 s2 where y: "y = Ret (rl, w2, s2)"
      using b by (cases y) auto
    show ?thesis
    proof (cases "rl \<noteq> 0")
      case True
      then have "ret = rl \<and> g' = g \<and> w' = w2 \<and> src' = s2"
        using b ly y by simp
      then show ?thesis using loop [of st w1] i r0 h ly y True by (simp add: w0_def)
    next
      case False
      then have c: "(case on_ok (lift_g g (write_trailer w2)) (\<lambda>(g, w).
                                        on_ok (write_bindex Z g w) (\<lambda>(g, w).
                                        write_eof Z g w)) of
                                     Ret (ret, g, w) \<Rightarrow>
                                       if ret \<noteq> 0 then Ret (ret, g, w, s2, stream_of w dst)
                                       else Ret (ret, g, w\<lparr>w_fp := None\<rparr>, s2, stream_of w dst)
                                   | Exit n \<Rightarrow> Exit n | Abort \<Rightarrow> Abort | UB \<Rightarrow> UB)
           = Ret (ret, g', w', src', dst')"
        using b ly y by simp
      then obtain z where z: "on_ok (lift_g g (write_trailer w2)) (\<lambda>(g, w).
                                        on_ok (write_bindex Z g w) (\<lambda>(g, w).
                                        write_eof Z g w)) = Ret z"
        by (cases "on_ok (lift_g g (write_trailer w2)) (\<lambda>(g, w).
                                        on_ok (write_bindex Z g w) (\<lambda>(g, w).
                                        write_eof Z g w))") auto
      obtain rt gt w5 where zz: "z = (rt, gt, w5)" by (cases z)
      have "ret = rt \<and> g' = gt \<and> src' = s2 \<and> dst' = stream_of w5 dst
          \<and> w' = (if ret \<noteq> 0 then w5 else w5\<lparr>w_fp := None\<rparr>)"
        using c z zz by (auto split: if_splits)
      then show ?thesis using tail [of st w1 w2 w5] i r0 h ly y False z zz by (simp add: w0_def)
    qed
  qed
qed

lemma deflate_failure:
  assumes "MZGFileWriter_deflate Z g w src dst = Some (Ret (ret, g', w', src', dst'))" "ret \<noteq> 0"
  shows "w_error w' = Strerror \<or> (\<exists>e. w_error w' = ZError e)"
  using assms(1)
proof (cases rule: deflate_cases)
  case (init st)
  then show ?thesis by simp
next
  case (loop st w1)
  then show ?thesis using deflate_loop_result [OF loop(3)] by simp
next
  case (tail st w1 w2 w5)
  have w': "w' = w5" using tail(5) assms(2) by simp
  from on_ok_cases [OF tail(4)]
  consider "lift_g g (write_trailer w2) = Ret (ret, g', w5)"
    | g3 w3 where "lift_g g (write_trailer w2) = Ret (0, g3, w3)"
        "on_ok (write_bindex Z g3 w3) (\<lambda>(g, w). write_eof Z g w) = Ret (ret, g', w5)"
    by auto
  then show ?thesis
  proof cases
    case 1
    then show ?thesis using write_trailer_err [of w2 ret w5] assms(2) w' by (simp add: lift_g_Ret)
  next
    case 2
    from on_ok_cases [OF 2(2)]
    consider "write_bindex Z g3 w3 = Ret (ret, g', w5)"
      | g4 w4 where "write_bindex Z g3 w3 = Ret (0, g4, w4)" "write_eof Z g4 w4 = Ret (ret, g', w5)"
      by auto
    then show ?thesis
    proof cases
      case 1
      then show ?thesis using write_bindex_result [OF 1] assms(2) w' by simp
    next
      case 2
      then show ?thesis using write_eof_result [OF 2(2)] assms(2) w' by simp
    qed
  qed
qed

lemma deflate_success:
  assumes "MZGFileWriter_deflate Z g w src dst = Some (Ret (0, g', w', src', dst'))"
    and "length (extra_mzgf g) = 5" "length (extra_eof g) = 20"
    and "take 2 (extra_bindex g) = [0x42, 0x49]"
  shows "\<exists>data idx xlen rest more.
     f_bytes dst' = f_bytes dst @ (gz_header (w_mtime w) 5 @ extra_mzgf g) @ data @ idx
        @ zero_member Z (w_mtime w)
            (bo_extra (take 4 (extra_eof g)) (w_uoffset w') (w_bindex_offset w'))
     \<and> w_bindex_offset w' = 17 + int (length data)
     \<and> idx = gz_header (w_mtime w) xlen @ [0x42, 0x49] @ rest
     \<and> \<not> f_error dst' \<and> \<not> f_error dst
     \<and> w_bindex w' = w_bindex w @ \<lparr>zoffset = 17, uoffset = 0\<rparr> # more"
  using assms(1)
proof (cases rule: deflate_cases)
  case (init st)
  then show ?thesis by simp
next
  case (loop st w1)
  then show ?thesis by simp
next
  case (tail st w1 w2 w5)
  define w0 where "w0 = w\<lparr>w_zs := (w_zs w)\<lparr>zstate := st\<rparr>, w_fp := Some dst, w_uoffset := 0, w_usize := 0,
            w_ucrc32 := crc32 Z 0 [], w_zoffset := 0\<rparr>"
  have h: "write_header (extra_mzgf g) 5 w0 = Ret (0, w1)" using tail(2) by (simp add: w0_def)
  obtain s3 where t0: "lift_g g (write_trailer w2) = Ret (0, s3)"
    and r3: "(case s3 of (g, w) \<Rightarrow> on_ok (write_bindex Z g w) (\<lambda>(g, w). write_eof Z g w)) = Ret (0, g', w5)"
    using on_ok_zero [OF tail(4)] by auto
  obtain g3 w3 where s3: "s3 = (g3, w3)" by (cases s3)
  have t: "write_trailer w2 = Ret (0, w3)" and g3: "g3 = g"
    using t0 s3 by (simp_all add: lift_g_Ret)
  obtain s4 where b0: "write_bindex Z g w3 = Ret (0, s4)"
    and r4: "(case s4 of (g, w) \<Rightarrow> write_eof Z g w) = Ret (0, g', w5)"
    using on_ok_zero [of "write_bindex Z g w3" "\<lambda>(g, w). write_eof Z g w" "(g', w5)"] r3 s3 g3 by auto
  obtain g4 w4 where s4: "s4 = (g4, w4)" by (cases s4)
  have b: "write_bindex Z g w3 = Ret (0, g4, w4)" and e: "write_eof Z g4 w4 = Ret (0, g', w5)"
    using b0 r4 s4 by simp_all
  note H = write_header_wrote [OF h]
  note L = deflate_loop_result [OF tail(3)]
  note T = write_trailer_wrote [OF t]
  note B = write_bindex_result [OF b]
  note E = write_eof_result [OF e]
  obtain outl where outl: "wrote w1 w2 outl" using L by auto
  obtain more where more: "w_bindex w2 = w_bindex w1
                @ \<lparr>zoffset = word_of_int (w_zoffset w1), uoffset = word_of_int (w_uoffset w1)\<rparr> # more"
    using L by auto
  let ?hdr = "gz_header (w_mtime w0) 5 @ take (nat 5) (extra_mzgf g)"
  have wh: "wrote w0 w1 ?hdr" using H wrote_fp [OF outl] by auto
  have z1: "w_zoffset w1 = 17" using wh assms(2) by (simp add: wrote_def w0_def split: option.splits)
  have u1: "w_uoffset w1 = 0" using H by (simp add: kept_def w0_def)
  have bx: "w_bindex w3 \<noteq> []" using more T by (simp add: kept_def)
  have g4e: "length (extra_eof g4) = 20" "extra_eof g4 = extra_eof g" using B assms(3) by simp_all
  obtain xlen rest where idx: "wrote w3 w4 (gz_header (w_mtime w3) xlen @ [0x42, 0x49] @ rest)"
    using B bx assms(4) by auto
  let ?tr = "le32 (w_ucrc32 w2) @ le32 (word_of_int (w_usize w2))"
  let ?eof = "zero_member Z (w_mtime w4) (bo_extra (take 4 (extra_eof g4)) (w_uoffset w4) (w_bindex_offset w4))"
  have we: "wrote w4 w5 ?eof" using E g4e by simp
  have wt: "wrote w2 w3 ?tr" using T by simp
  have mt: "w_mtime w0 = w_mtime w" "w_mtime w3 = w_mtime w" "w_mtime w4 = w_mtime w"
    using H L T B by (simp_all add: kept_def w0_def)
  have k5: "w_uoffset w5 = w_uoffset w4" "w_bindex_offset w5 = w_bindex_offset w4" "w_bindex w5 = w_bindex w4"
    using E by (simp_all add: kept_def)
  have bo: "w_bindex_offset w4 = w_zoffset w3" using B by simp
  have z3: "w_zoffset w3 = 17 + int (length (outl @ ?tr))"
    using outl wt z1 by (simp add: wrote_def split: option.splits)
  from wrote_trans [OF wrote_trans [OF wrote_trans [OF wrote_trans [OF wh outl] wt] idx] we]
  have all: "wrote w0 w5 (?hdr @ outl @ ?tr @ (gz_header (w_mtime w3) xlen @ [0x42, 0x49] @ rest) @ ?eof)"
    by simp
  then obtain fp5 where fp5: "w_fp w5 = Some fp5" "\<not> f_error fp5" "\<not> f_error dst"
    "f_bytes fp5 = f_bytes dst @ (?hdr @ outl @ ?tr @ (gz_header (w_mtime w3) xlen @ [0x42, 0x49] @ rest) @ ?eof)"
    by (auto simp: wrote_def w0_def split: option.splits)
  have d: "dst' = fp5" using tail(6) fp5 by (simp add: stream_of_def)
  have w': "w' = w5\<lparr>w_fp := None\<rparr>" using tail(5) by simp
  have bi: "w_bindex w' = w_bindex w @ \<lparr>zoffset = 17, uoffset = 0\<rparr> # more"
    using w' k5 B T more z1 u1 H by (simp add: kept_def w0_def)
  have "f_bytes dst' = f_bytes dst @ (gz_header (w_mtime w) 5 @ extra_mzgf g) @ (outl @ ?tr)
        @ (gz_header (w_mtime w) xlen @ [0x42, 0x49] @ rest)
        @ zero_member Z (w_mtime w)
            (bo_extra (take 4 (extra_eof g)) (w_uoffset w') (w_bindex_offset w'))"
    using fp5(4) d w' k5 g4e mt assms(2) by simp
  moreover have "w_bindex_offset w' = 17 + int (length (outl @ ?tr))"
    using w' k5 bo z3 by simp
  ultimately show ?thesis using fp5 d bi by blast
qed

subsection \<open>The writer on the stand-in engine\<close>

lemma fwrite_fits:
  "\<not> f_error fp \<Longrightarrow> length d \<le> f_room fp \<Longrightarrow>
     fwrite d fp = (length d, fp\<lparr>f_bytes := f_bytes fp @ d, f_pos := f_pos fp + length d,
                                 f_room := f_room fp - length d\<rparr>)"
  by (simp add: fwrite_def Let_def)

lemma length_zero_member [simp]: "length (zero_member Z mt ex) = length ex + 22"
  by (simp add: zero_member_def)

lemma write_member_eq:
  assumes "w_fp w = Some fp" "\<not> f_error fp" "0 \<le> n" "n < 65535" "nat n \<le> length extra"
    "nat n + 22 \<le> f_room fp"
  shows "write_member Z extra n w
    = Ret (0, w\<lparr>w_zblock := gz_header (w_mtime w) n @ drop 12 (w_zblock w),
                  w_fp := Some (snd (fwrite (zero_member Z (w_mtime w) (take (nat n) extra)) fp)),
                  w_zoffset := w_zoffset w + n + 22, w_usize := 0, w_ucrc32 := crc32 Z 0 []\<rparr>)"
proof -
  let ?h = "gz_header (w_mtime w) n @ take (nat n) extra"
  let ?t = "le32 (crc32 Z 0 []) @ le32 0"
  let ?fp1 = "snd (fwrite ?h fp)"
  let ?fp2 = "snd (fwrite [0x03, 0x00] ?fp1)"
  let ?fp3 = "snd (fwrite ?t ?fp2)"
  have len: "length ?h = 12 + nat n" using assms by simp
  have e1: "\<not> f_error ?fp1" using assms len by (simp add: fwrite_error_iff)
  have e2: "\<not> f_error ?fp2" using assms len e1 by (simp add: fwrite_error_iff fwrite_room)
  have e3: "\<not> f_error ?fp3" using assms len e2 by (simp add: fwrite_error_iff fwrite_room)
  have fp3: "?fp3 = snd (fwrite (zero_member Z (w_mtime w) (take (nat n) extra)) fp)"
    using assms by (simp add: fwrite_twice zero_member_def)
  let ?w1 = "w\<lparr>w_zblock := gz_header (w_mtime w) n @ drop 12 (w_zblock w),
                     w_fp := Some ?fp1, w_zoffset := w_zoffset w + 12 + n\<rparr>"
  have h: "write_header extra n w = Ret (0, ?w1)"
    using write_header_eq [OF assms(1,3,4,5)] e1 by (simp add: Let_def)
  let ?w2 = "?w1\<lparr>w_fp := Some ?fp2, w_zoffset := w_zoffset ?w1 + 2, w_usize := 0,
                       w_ucrc32 := crc32 Z 0 []\<rparr>"
  have e: "write_empty Z ?w1 = Ret (0, ?w2)"
    using write_empty_eq [of ?w1 ?fp1 Z] e2 by (simp add: Let_def)
  have t: "write_trailer ?w2 = Ret (0, ?w2\<lparr>w_fp := Some ?fp3, w_zoffset := w_zoffset ?w2 + 8\<rparr>)"
    using write_trailer_eq [of ?w2 ?fp2] e3 by (simp add: Let_def)
  show ?thesis
    unfolding write_member_def h on_ok.simps e t fp3 [symmetric] by simp
qed

lemma length_stored_block [simp]: "length (stored_block fin bs) = length bs + 5"
  by (simp add: stored_block_def packInt16_def)

lemma stored_zlib_simps:
  "deflate stored_zlib = stored_deflate" "crc32 stored_zlib = stored_crc32"
  "deflateInit2 stored_zlib = (Z_OK, Deflating [] False)"
  "inflate stored_zlib = stored_inflate" "inflateInit2 stored_zlib = (Z_OK, Inflating [] 0 False False)"
  "compressBound stored_zlib MZGF_BLOCK_SIZE < MZGF_MAX_BLOCK_SIZE"
  by (simp_all add: stored_zlib_def MZGF_BLOCK_SIZE_def MZGF_MAX_BLOCK_SIZE_def)

lemma flush_stored_final:
  assumes "w_fp w = Some fp" "zstate (w_zs w) = Deflating [] False" "next_in (w_zs w) = buf"
    "length buf < 65275" "\<not> f_error fp" "length buf + 5 \<le> f_room fp"
  shows "flush stored_zlib w
    = Some (Ret (0, w\<lparr>w_usize := w_usize w + int (length buf),
                       w_ucrc32 := stored_crc32 (w_ucrc32 w) (take (length buf) (w_ublock w)),
                       w_zs := (w_zs w)\<lparr>next_in := [], avail_out := 65275 - length buf,
                                          zstate := Deflating [] True\<rparr>,
                       w_zblock := stored_block True buf @ drop (length buf + 5) (w_zblock w),
                       w_fp := Some (snd (fwrite (stored_block True buf) fp)),
                       w_zoffset := w_zoffset w + int (length buf) + 5\<rparr>))"
  unfolding flush_def Let_def
  apply (subst flush_loop.simps)
  using assms
  apply (simp add: stored_zlib_simps avail_in_def MZGF_BLOCK_SIZE_def zlib_call_def stored_deflate_def
      Z_OK_def Z_STREAM_END_def Let_def fwrite_fits ferror_def)
  done

lemma flush_stored_full:
  assumes "w_fp w = Some fp" "zstate (w_zs w) = Deflating [] False" "next_in (w_zs w) = buf"
    "length buf = 65280" "\<not> f_error fp" "65285 \<le> f_room fp"
  shows "flush stored_zlib w
    = Some (Ret (0, w\<lparr>w_usize := w_usize w + 65280,
                       w_ucrc32 := stored_crc32 (w_ucrc32 w) (take 65280 (w_ublock w)),
                       w_zs := (w_zs w)\<lparr>next_in := [], avail_out := 65275,
                                          zstate := Deflating [] False\<rparr>,
                       w_zblock := drop 65280 (stored_block False buf)
                           @ drop 5 (take 65280 (stored_block False buf) @ drop 65280 (w_zblock w)),
                       w_fp := Some (snd (fwrite (stored_block False buf) fp)),
                       w_zoffset := w_zoffset w + 65285\<rparr>))"
proof -
  have sp: "stored_block False buf = take 65280 (stored_block False buf) @ drop 65280 (stored_block False buf)"
    by simp
  have l1: "length (take 65280 (stored_block False buf)) = 65280"
    and l2: "length (drop 65280 (stored_block False buf)) = 5"
    using assms(4) by simp_all
  have fw: "snd (fwrite (stored_block False buf) fp)
      = snd (fwrite (drop 65280 (stored_block False buf)) (snd (fwrite (take 65280 (stored_block False buf)) fp)))"
    by (simp only: fwrite_twice append_take_drop_id)
  have ne: "buf \<noteq> []" "drop 65280 (stored_block False buf) \<noteq> []"
    using assms(4) l2 by auto
  have dd: "drop 65280 (drop 65280 (stored_block False buf)) = []"
    "take 65280 (drop 65280 (stored_block False buf)) = drop 65280 (stored_block False buf)"
    using l2 by simp_all
  show ?thesis
    unfolding flush_def Let_def fw
    apply (subst flush_loop.simps)
    using assms l1 l2 ne dd
    apply (simp add: stored_zlib_simps avail_in_def MZGF_BLOCK_SIZE_def zlib_call_def stored_deflate_def
      Z_OK_def Z_STREAM_END_def Z_BUF_ERROR_def Let_def fwrite_fits ferror_def)
    apply (subst flush_loop.simps)
    apply (simp add: stored_zlib_simps avail_in_def MZGF_BLOCK_SIZE_def zlib_call_def stored_deflate_def
      Z_OK_def Z_STREAM_END_def Z_BUF_ERROR_def Let_def fwrite_fits ferror_def)
    done
qed

lemma write_header_the:
  assumes "w_fp w \<noteq> None" "0 \<le> n" "n < 65535" "nat n \<le> length extra"
    "\<not> f_error (the (w_fp w))" "12 + nat n \<le> f_room (the (w_fp w))"
  shows "write_header extra n w
    = Ret (0, w\<lparr>w_zblock := gz_header (w_mtime w) n @ drop 12 (w_zblock w),
                  w_fp := Some (snd (fwrite (gz_header (w_mtime w) n @ take (nat n) extra) (the (w_fp w)))),
                  w_zoffset := w_zoffset w + 12 + n\<rparr>)"
proof -
  obtain fp where fp: "w_fp w = Some fp" using assms(1) by auto
  have "\<not> f_error (snd (fwrite (gz_header (w_mtime w) n @ take (nat n) extra) fp))"
    using assms fp by (simp add: fwrite_error_iff)
  then show ?thesis
    using write_header_eq [OF fp assms(2,3,4)] fp by (simp add: Let_def)
qed

lemma write_trailer_the:
  assumes "w_fp w \<noteq> None" "\<not> f_error (the (w_fp w))" "8 \<le> f_room (the (w_fp w))"
  shows "write_trailer w
    = Ret (0, w\<lparr>w_fp := Some (snd (fwrite (le32 (w_ucrc32 w) @ le32 (word_of_int (w_usize w))) (the (w_fp w)))),
                  w_zoffset := w_zoffset w + 8\<rparr>)"
proof -
  obtain fp where fp: "w_fp w = Some fp" using assms(1) by auto
  have "\<not> f_error (snd (fwrite (le32 (w_ucrc32 w) @ le32 (word_of_int (w_usize w))) fp))"
    using assms fp by (simp add: fwrite_error_iff)
  then show ?thesis
    using write_trailer_eq [OF fp] fp by (simp add: Let_def)
qed

lemma write_member_the:
  assumes "w_fp w \<noteq> None" "\<not> f_error (the (w_fp w))" "0 \<le> n" "n < 65535" "nat n \<le> length extra"
    "nat n + 22 \<le> f_room (the (w_fp w))"
  shows "write_member Z extra n w
    = Ret (0, w\<lparr>w_zblock := gz_header (w_mtime w) n @ drop 12 (w_zblock w),
                  w_fp := Some (snd (fwrite (zero_member Z (w_mtime w) (take (nat n) extra)) (the (w_fp w)))),
                  w_zoffset := w_zoffset w + n + 22, w_usize := 0, w_ucrc32 := crc32 Z 0 []\<rparr>)"
proof -
  obtain fp where fp: "w_fp w = Some fp" using assms(1) by auto
  show ?thesis using write_member_eq [OF fp, of n extra Z] assms fp by simp
qed

lemma flush_stored_final_the:
  assumes "w_fp w \<noteq> None" "zstate (w_zs w) = Deflating [] False"
    "length (next_in (w_zs w)) < 65275" "\<not> f_error (the (w_fp w))"
    "length (next_in (w_zs w)) + 5 \<le> f_room (the (w_fp w))"
  shows "flush stored_zlib w
    = Some (Ret (0, w\<lparr>w_usize := w_usize w + int (length (next_in (w_zs w))),
                       w_ucrc32 := stored_crc32 (w_ucrc32 w) (take (length (next_in (w_zs w))) (w_ublock w)),
                       w_zs := (w_zs w)\<lparr>next_in := [], avail_out := 65275 - length (next_in (w_zs w)),
                                          zstate := Deflating [] True\<rparr>,
                       w_zblock := stored_block True (next_in (w_zs w))
                                     @ drop (length (next_in (w_zs w)) + 5) (w_zblock w),
                       w_fp := Some (snd (fwrite (stored_block True (next_in (w_zs w))) (the (w_fp w)))),
                       w_zoffset := w_zoffset w + int (length (next_in (w_zs w))) + 5\<rparr>))"
proof -
  obtain fp where fp: "w_fp w = Some fp" using assms(1) by auto
  show ?thesis using flush_stored_final [OF fp assms(2) refl] assms fp by simp
qed

lemma flush_stored_full_the:
  assumes "w_fp w \<noteq> None" "zstate (w_zs w) = Deflating [] False"
    "length (next_in (w_zs w)) = 65280" "\<not> f_error (the (w_fp w))"
    "65285 \<le> f_room (the (w_fp w))"
  shows "flush stored_zlib w
    = Some (Ret (0, w\<lparr>w_usize := w_usize w + 65280,
                       w_ucrc32 := stored_crc32 (w_ucrc32 w) (take 65280 (w_ublock w)),
                       w_zs := (w_zs w)\<lparr>next_in := [], avail_out := 65275,
                                          zstate := Deflating [] False\<rparr>,
                       w_zblock := drop 65280 (stored_block False (next_in (w_zs w)))
                           @ drop 5 (take 65280 (stored_block False (next_in (w_zs w))) @ drop 65280 (w_zblock w)),
                       w_fp := Some (snd (fwrite (stored_block False (next_in (w_zs w))) (the (w_fp w)))),
                       w_zoffset := w_zoffset w + 65285\<rparr>))"
proof -
  obtain fp where fp: "w_fp w = Some fp" using assms(1) by auto
  show ?thesis using flush_stored_full [OF fp assms(2) refl] assms fp by simp
qed

lemma snd_fwrite_fits:
  "\<not> f_error fp \<Longrightarrow> length d \<le> f_room fp \<Longrightarrow>
     snd (fwrite d fp) = fp\<lparr>f_bytes := f_bytes fp @ d, f_pos := f_pos fp + length d,
                             f_room := f_room fp - length d\<rparr>"
  by (simp add: fwrite_fits)

lemma stored_crc32_nil [simp]: "stored_crc32 0 [] = 0"
  by (simp add: stored_crc32_def)

lemma deflate_stored_small:
  assumes "length B < 65275" "length B + 122 \<le> room"
  shows "\<exists>g' w' src' dst'.
     MZGFileWriter_deflate stored_zlib globals_init (MZGFileWriter now mem)
        (input_stream B) (output_stream room) = Some (Ret (0, g', w', src', dst'))
     \<and> f_bytes dst' = small_mgz now B \<and> w_bindex w' = [\<lparr>zoffset = 17, uoffset = 0\<rparr>]
     \<and> w_uoffset w' = int (length B) \<and> w_bindex_offset w' = 30 + int (length B)"
  using assms
  apply (simp add: MZGFileWriter_deflate_def stored_zlib_simps Z_OK_def Let_def)
  apply (simp add: write_header_the MZGFileWriter_def output_stream_def globals_init_def MZGF_VERSION_def
       snd_fwrite_fits)
  apply (subst deflate_loop.simps)
  apply (simp add: deflate_step_def input_stream_def fopen_rb_def fread_def ferror_def feof_def Let_def
      MZGF_BLOCK_SIZE_def avail_in_def flush_stored_final_the snd_fwrite_fits)
  apply (simp add: lift_g_def write_trailer_the snd_fwrite_fits)
  apply (simp add: write_bindex_def write_bindex_step_def Let_def globals_init_def GZIP_FEXTRA_MAX_def
      length_gzheader)
  apply (simp add: write_member_the snd_fwrite_fits packInt64_le packInt16_le)
  apply (simp add: write_eof_def Let_def lift_g_def write_member_the snd_fwrite_fits packInt64_le)
  apply (simp add: stream_of_def small_mgz_def bi_extra_def bo_extra_def bi_entry_def)
  done

subsection \<open>Write failures\<close>

text \<open>
  \<^verbatim>\<open>_write_header\<close> itself sets the message on a short write and goes on: on a
  destination that takes no byte it returns 0, with \<^verbatim>\<open>m_zoffset\<close> advanced by the 17
  bytes it did not write. The error indicator of the stream stays set, and the write
  of \<^verbatim>\<open>_flush\<close> or \<^verbatim>\<open>_write_empty\<close> that follows every header tests it.
\<close>

lemma write_header_ignores_short_write:
  "(case write_header (extra_mzgf globals_init) 5
           ((MZGFileWriter 0 writer_mem)\<lparr>w_fp := Some (output_stream 0), w_zoffset := 0\<rparr>) of
      Ret (ret, w) \<Rightarrow>
        ret = 0 \<and> w_error w = Strerror \<and> w_zoffset w = 17
        \<and> map_option f_bytes (w_fp w) = Some [] \<and> map_option ferror (w_fp w) = Some True
    | _ \<Rightarrow> False)"
  by (simp add: write_header_def globals_init_def MZGFileWriter_def writer_mem_def output_stream_def
      consts_defs fwrite_def ferror_def Let_def packInt32_def packInt16_def)

lemma deflate_zero_stream:
  assumes "MZGFileWriter_deflate Z g w src dst = Some (Ret (0, g', w', src', dst'))"
  shows "\<not> f_error dst'"
  using assms
proof (cases rule: deflate_cases)
  case (init st)
  then show ?thesis by simp
next
  case (loop st w1)
  then show ?thesis by simp
next
  case (tail st w1 w2 w5)
  obtain s3 where r3: "(case s3 of (g, w) \<Rightarrow> on_ok (write_bindex Z g w) (\<lambda>(g, w). write_eof Z g w)) = Ret (0, g', w5)"
    using on_ok_zero [OF tail(4)] by auto
  obtain g3 w3 where s3: "s3 = (g3, w3)" by (cases s3)
  obtain s4 where r4: "(case s4 of (g, w) \<Rightarrow> write_eof Z g w) = Ret (0, g', w5)"
    using on_ok_zero [of "write_bindex Z g3 w3" "\<lambda>(g, w). write_eof Z g w" "(g', w5)"] r3 s3 by auto
  obtain g4 w4 where s4: "s4 = (g4, w4)" by (cases s4)
  have e: "write_eof Z g4 w4 = Ret (0, g', w5)" using r4 s4 by simp
  from write_eof_result [OF e] obtain out where "wrote w4 w5 out" by auto
  from wrote_no_error [OF this] show ?thesis using tail(6) by (auto simp: stream_of_def)
qed

lemma deflate_on_full_device:
  "\<exists>g w src dst. MZGFileWriter_deflate stored_zlib globals_init (MZGFileWriter 0 writer_mem)
           (input_stream []) (output_stream 0) = Some (Ret (1, g, w, src, dst))
        \<and> f_error dst \<and> f_bytes dst = [] \<and> w_error w = Strerror"
  apply (simp add: MZGFileWriter_deflate_def stored_zlib_def consts_defs)
  apply (simp add: write_header_def globals_init_def MZGFileWriter_def writer_mem_def output_stream_def
      consts_defs fwrite_def ferror_def Let_def packInt32_def packInt16_def)
  apply (subst deflate_loop.simps)
  apply (simp add: deflate_step_def input_stream_def fopen_rb_def fread_def ferror_def feof_def Let_def
      consts_defs flush_def avail_in_def)
  apply (subst flush_loop.simps)
  apply (simp add: zlib_call_def stored_deflate_def stored_block_def packInt16_def consts_defs
      fwrite_def ferror_def Let_def stream_of_def)
  done

text \<open>
  C7. When \<open>deflate\<close> returns with the error indicator of the destination set (a write
  came up short, or the stream was in error), it returns a non-zero status; and
  whenever it returns a non-zero status the message is set, to \<^verbatim>\<open>strerror(errno)\<close> or to
  the message of zlib.
\<close>

theorem deflate_reports_write_failure:
  assumes "MZGFileWriter_deflate Z g w src dst = Some (Ret (ret, g', w', src', dst'))"
  shows "(f_error dst' \<longrightarrow> ret \<noteq> 0)
     \<and> (ret \<noteq> 0 \<longrightarrow> w_error w' = Strerror \<or> (\<exists>e. w_error w' = ZError e))"
  using deflate_zero_stream [of Z g w src dst g' w' src' dst'] deflate_failure [OF assms] assms
  by blast

theorem deflate_reports_write_failure_witness:
  "\<exists>ret g' w' src' dst'.
     MZGFileWriter_deflate stored_zlib globals_init (MZGFileWriter 0 writer_mem)
        (input_stream []) (output_stream 0) = Some (Ret (ret, g', w', src', dst'))
     \<and> f_error dst' \<and> ret \<noteq> 0 \<and> (w_error w' = Strerror \<or> (\<exists>e. w_error w' = ZError e))"
proof -
  obtain g' w' src' dst' where r: "MZGFileWriter_deflate stored_zlib globals_init (MZGFileWriter 0 writer_mem)
        (input_stream []) (output_stream 0) = Some (Ret (1, g', w', src', dst'))" and e: "f_error dst'"
    using deflate_on_full_device by blast
  from deflate_reports_write_failure [OF r] e
  have "(1 :: int) \<noteq> 0 \<and> (w_error w' = Strerror \<or> (\<exists>e. w_error w' = ZError e))" by blast
  with r e show ?thesis by blast
qed

subsection \<open>What read returns\<close>















end
